theory Spec2Isabelle
  imports Complex_Main
begin

section \<open>Core constants\<close>

text \<open>
  The module-level constants of \<^verbatim>\<open>game.py\<close>. Python's \<^verbatim>\<open>float\<close> is modelled by
  \<^typ>\<open>real\<close> (exact arithmetic: no rounding, no NaN, no infinities, no signed zero),
  Python's unbounded \<^verbatim>\<open>int\<close> by \<^typ>\<open>int\<close>.
\<close>

definition SCREEN_WIDTH :: int where "SCREEN_WIDTH = 960"
definition SCREEN_HEIGHT :: int where "SCREEN_HEIGHT = 720"
definition TILE_SIZE :: int where "TILE_SIZE = 48"
definition GRID_WIDTH :: int where "GRID_WIDTH = SCREEN_WIDTH div TILE_SIZE"
definition GRID_HEIGHT :: int where "GRID_HEIGHT = SCREEN_HEIGHT div TILE_SIZE"

definition PLAYER_SPEED :: real where "PLAYER_SPEED = 180"
definition PLAYER_ROTATION_SPEED :: real where "PLAYER_ROTATION_SPEED = 180"
definition ENEMY_SPEED :: real where "ENEMY_SPEED = 120"
definition ENEMY_ROTATION_SPEED :: real where "ENEMY_ROTATION_SPEED = 120"
definition SHELL_SPEED :: real where "SHELL_SPEED = 400"
definition SHELL_COOLDOWN :: real where "SHELL_COOLDOWN = 6 / 10"

definition LEVEL_BASE_ENEMIES :: int where "LEVEL_BASE_ENEMIES = 2"
definition LEVEL_ENEMY_SCALE :: real where "LEVEL_ENEMY_SCALE = 125 / 100"

type_synonym rgb = "int \<times> int \<times> int"

definition COLOR_player :: rgb where "COLOR_player = (80, 200, 120)"
definition COLOR_enemy :: rgb where "COLOR_enemy = (200, 80, 80)"

lemmas grid_defs =
  SCREEN_WIDTH_def SCREEN_HEIGHT_def TILE_SIZE_def GRID_WIDTH_def GRID_HEIGHT_def

section \<open>Library values: vectors, rectangles, the random source\<close>

type_synonym vec2 = "real \<times> real"

definition vadd :: "vec2 \<Rightarrow> vec2 \<Rightarrow> vec2" where
  "vadd a b = (fst a + fst b, snd a + snd b)"

definition vsub :: "vec2 \<Rightarrow> vec2 \<Rightarrow> vec2" where
  "vsub a b = (fst a - fst b, snd a - snd b)"

definition vscale :: "vec2 \<Rightarrow> real \<Rightarrow> vec2" where
  "vscale a k = (fst a * k, snd a * k)"

definition length_squared :: "vec2 \<Rightarrow> real" where
  "length_squared a = fst a * fst a + snd a * snd a"

definition vlength :: "vec2 \<Rightarrow> real" where
  "vlength a = sqrt (length_squared a)"

definition normalize :: "vec2 \<Rightarrow> vec2" where
  "normalize a = (fst a / vlength a, snd a / vlength a)"

text \<open>Python's \<^verbatim>\<open>int(x)\<close> on a float truncates toward zero.\<close>

definition py_int :: "real \<Rightarrow> int" where
  "py_int x = (if 0 \<le> x then \<lfloor>x\<rfloor> else \<lceil>x\<rceil>)"

text \<open>Python's \<^verbatim>\<open>x % m\<close> on floats, for a positive modulus: the result lies in \<open>[0, m)\<close>.\<close>

definition py_fmod :: "real \<Rightarrow> real \<Rightarrow> real" where
  "py_fmod x m = x - m * of_int \<lfloor>x / m\<rfloor>"

text \<open>
  \<^verbatim>\<open>pygame.Rect(x, y, w, h)\<close>: integer fields. \<^verbatim>\<open>colliderect\<close> is strict overlap and
  \<^verbatim>\<open>collidepoint\<close> is half-open, as pygame defines them for rectangles of positive
  width and height (every rectangle this program builds); pygame converts float
  arguments to integers by truncation.
\<close>

datatype rect = Rect (rect_x: int) (rect_y: int) (rect_w: int) (rect_h: int)

definition rect_left :: "rect \<Rightarrow> int" where "rect_left r = rect_x r"
definition rect_right :: "rect \<Rightarrow> int" where "rect_right r = rect_x r + rect_w r"
definition rect_top :: "rect \<Rightarrow> int" where "rect_top r = rect_y r"
definition rect_bottom :: "rect \<Rightarrow> int" where "rect_bottom r = rect_y r + rect_h r"

definition colliderect :: "rect \<Rightarrow> rect \<Rightarrow> bool" where
  "colliderect a b \<longleftrightarrow>
     rect_left a < rect_right b \<and> rect_left b < rect_right a \<and>
     rect_top a < rect_bottom b \<and> rect_top b < rect_bottom a"

definition collidepoint :: "rect \<Rightarrow> real \<Rightarrow> real \<Rightarrow> bool" where
  "collidepoint r px py \<longleftrightarrow>
     rect_left r \<le> py_int px \<and> py_int px < rect_right r \<and>
     rect_top r \<le> py_int py \<and> py_int py < rect_bottom r"

text \<open>
  \<^verbatim>\<open>random.Random\<close> is the standard library's generator, not part of this program:
  it is a parameter of the model. \<open>rng_seed\<close> is \<^verbatim>\<open>random.Random(seed)\<close>, and
  \<open>rng_random\<close> and \<open>rng_randint\<close> are the two methods the program calls, each
  returning the drawn value and the generator's next state.
\<close>

record 'g rng =
  rng_seed :: "int \<Rightarrow> 'g"
  rng_random :: "'g \<Rightarrow> real \<times> 'g"
  rng_randint :: "'g \<Rightarrow> int \<Rightarrow> int \<Rightarrow> int \<times> 'g"


section \<open>Utility functions\<close>

definition radians :: "real \<Rightarrow> real" where
  "radians d = d * pi / 180"

definition degrees :: "real \<Rightarrow> real" where
  "degrees r = r * 180 / pi"

definition atan2 :: "real \<Rightarrow> real \<Rightarrow> real" where
  "atan2 y x =
     (if 0 < x then arctan (y / x)
      else if x < 0 then (if 0 \<le> y then arctan (y / x) + pi else arctan (y / x) - pi)
      else if 0 < y then pi / 2
      else if y < 0 then - (pi / 2)
      else 0)"

definition vec_from_angle :: "real \<Rightarrow> vec2" where
  "vec_from_angle angle_degrees = (cos (radians angle_degrees), sin (radians angle_degrees))"

definition clamp :: "real \<Rightarrow> real \<Rightarrow> real \<Rightarrow> real" where
  "clamp v min_value max_value = max min_value (min v max_value)"

section \<open>Game entities\<close>

text \<open>
  A shell refers to the tank that fired it; the program compares that reference by
  object identity (\<^verbatim>\<open>target is shell.owner\<close>). Identity is modelled by a number,
  \<open>ident\<close>, given to each tank when it is created.
\<close>

record shell =
  s_position :: vec2
  s_velocity :: vec2
  s_owner :: nat
  s_radius :: real
  s_alive :: bool

record tank =
  ident :: nat
  position :: vec2
  angle :: real
  color :: rgb
  speed :: real
  rotation_speed :: real
  is_player :: bool
  reload_time :: real
  shell_cooldown :: real
  shells :: "shell list"
  tank_size :: "int \<times> int"
  alive :: bool

record level =
  number :: int
  walls :: "rect list"
  enemies :: "tank list"
  player :: tank
  player_destroyed :: bool

text \<open>The \<^verbatim>\<open>Tank\<close> constructor with the dataclass defaults.\<close>

definition Tank :: "nat \<Rightarrow> vec2 \<Rightarrow> real \<Rightarrow> rgb \<Rightarrow> real \<Rightarrow> real \<Rightarrow> bool \<Rightarrow> tank" where
  "Tank i p a c sp rs ip =
     \<lparr>ident = i, position = p, angle = a, color = c, speed = sp, rotation_speed = rs,
      is_player = ip, reload_time = 0, shell_cooldown = SHELL_COOLDOWN, shells = [],
      tank_size = (36, 36), alive = True\<rparr>"

text \<open>The property \<^verbatim>\<open>Tank.rect\<close>.\<close>

definition Tank_rect :: "tank \<Rightarrow> rect option" where
  "Tank_rect t =
     (let (width, height) = tank_size t in
      if width = 0 \<or> height = 0 \<or> \<not> alive t then None
      else Some (Rect (py_int (fst (position t) - of_int width / 2))
                      (py_int (snd (position t) - of_int height / 2)) width height))"

section \<open>Shell and tank updates\<close>

text \<open>The \<^verbatim>\<open>Shell\<close> constructor with the dataclass defaults, and \<^verbatim>\<open>Shell.update\<close>.\<close>

definition Shell :: "vec2 \<Rightarrow> vec2 \<Rightarrow> nat \<Rightarrow> shell" where
  "Shell p v ow = \<lparr>s_position = p, s_velocity = v, s_owner = ow, s_radius = 6, s_alive = True\<rparr>"

definition Shell_update :: "real \<Rightarrow> rect list \<Rightarrow> shell \<Rightarrow> shell" where
  "Shell_update dt ws s =
     (if \<not> s_alive s then s
      else
        let s1 = s\<lparr>s_position := vadd (s_position s) (vscale (s_velocity s) dt)\<rparr>;
            s2 = (if list_ex (\<lambda>wall. collidepoint wall (fst (s_position s1)) (snd (s_position s1))) ws
                  then s1\<lparr>s_alive := False\<rparr> else s1)
        in if \<not> (0 \<le> fst (s_position s2) \<and> fst (s_position s2) \<le> of_int SCREEN_WIDTH \<and>
                  0 \<le> snd (s_position s2) \<and> snd (s_position s2) \<le> of_int SCREEN_HEIGHT)
           then s2\<lparr>s_alive := False\<rparr> else s2)"

text \<open>\<^verbatim>\<open>Tank.fire\<close>.\<close>

definition fire :: "tank \<Rightarrow> tank" where
  "fire t =
     (if reload_time t > 0 \<or> \<not> alive t then t
      else
        let direction = vec_from_angle (angle t);
            shell_position = vadd (position t) (vscale direction (of_int (fst (tank_size t) div 2)));
            shell_velocity = vscale direction SHELL_SPEED
        in t\<lparr>shells := shells t @ [Shell shell_position shell_velocity (ident t)],
             reload_time := shell_cooldown t\<rparr>)"

text \<open>
  \<^verbatim>\<open>Tank._update_player\<close>. The keyboard state \<^verbatim>\<open>pygame.key.get_pressed()\<close> is an input
  of the model.
\<close>

record key_state =
  K_w :: bool
  K_UP :: bool
  K_s :: bool
  K_DOWN :: bool
  K_a :: bool
  K_LEFT :: bool
  K_d :: bool
  K_RIGHT :: bool

definition update_player :: "key_state \<Rightarrow> real \<Rightarrow> tank \<Rightarrow> tank" where
  "update_player keys dt t =
     (let mv0 = (0, 0);
          mv1 = (if K_w keys \<or> K_UP keys then vadd mv0 (vec_from_angle (angle t)) else mv0);
          mv2 = (if K_s keys \<or> K_DOWN keys then vsub mv1 (vec_from_angle (angle t)) else mv1);
          t1 = (if K_a keys \<or> K_LEFT keys then t\<lparr>angle := angle t - rotation_speed t * dt\<rparr> else t);
          t2 = (if K_d keys \<or> K_RIGHT keys then t1\<lparr>angle := angle t1 + rotation_speed t1 * dt\<rparr> else t1)
      in if length_squared mv2 > 0
         then t2\<lparr>position := vadd (position t2) (vscale (vscale (normalize mv2) (speed t2)) dt)\<rparr>
         else t2)"

text \<open>\<^verbatim>\<open>Tank._update_enemy\<close>; \<open>angle_delta\<close> is the wrapped difference of its third line.\<close>

definition angle_delta :: "real \<Rightarrow> real \<Rightarrow> real" where
  "angle_delta desired_angle a = py_fmod (desired_angle - a + 180) 360 - 180"

definition update_enemy :: "real \<Rightarrow> level \<Rightarrow> tank \<Rightarrow> tank" where
  "update_enemy dt lv t =
     (let direction = vsub (position (player lv)) (position t);
          t1 = (if length_squared direction > 1
                then
                  let desired_angle = degrees (atan2 (snd direction) (fst direction))
                  in t\<lparr>angle := angle t +
                       clamp (angle_delta desired_angle (angle t))
                         (- rotation_speed t * dt) (rotation_speed t * dt)\<rparr>
                else t);
          distance = vlength direction;
          t2 = (if distance > of_int TILE_SIZE * 15 / 10
                then t1\<lparr>position :=
                       vadd (position t1) (vscale (vscale (vec_from_angle (angle t1)) (speed t1)) dt)\<rparr>
                else t1)
      in if distance < of_int SCREEN_WIDTH \<and> reload_time t2 \<le> 0 then fire t2 else t2)"

text \<open>
  \<^verbatim>\<open>Tank._handle_wall_collisions\<close>: \<open>push_out\<close> is the body of the \<^verbatim>\<open>if\<close> up to the
  position update, \<open>wall_loop\<close> the \<^verbatim>\<open>for\<close> loop, which carries the current rectangle.
\<close>

definition push_out :: "rect \<Rightarrow> rect \<Rightarrow> tank \<Rightarrow> tank" where
  "push_out r wall t =
     (let dx_left = rect_right wall - rect_left r;
          dx_right = rect_right r - rect_left wall;
          dy_top = rect_bottom wall - rect_top r;
          dy_bottom = rect_bottom r - rect_top wall;
          min_penetration = min (min (min dx_left dx_right) dy_top) dy_bottom
      in if min_penetration = dx_left
         then t\<lparr>position := (fst (position t) + of_int dx_left, snd (position t))\<rparr>
         else if min_penetration = dx_right
         then t\<lparr>position := (fst (position t) - of_int dx_right, snd (position t))\<rparr>
         else if min_penetration = dy_top
         then t\<lparr>position := (fst (position t), snd (position t) + of_int dy_top)\<rparr>
         else t\<lparr>position := (fst (position t), snd (position t) - of_int dy_bottom)\<rparr>)"

fun wall_loop :: "rect list \<Rightarrow> rect \<Rightarrow> tank \<Rightarrow> tank" where
  "wall_loop [] r t = t"
| "wall_loop (wall # ws) r t =
     (if colliderect r wall
      then (let t' = push_out r wall t in
            case Tank_rect t' of None \<Rightarrow> t' | Some r' \<Rightarrow> wall_loop ws r' t')
      else wall_loop ws r t)"

definition handle_wall_collisions :: "rect list \<Rightarrow> tank \<Rightarrow> tank" where
  "handle_wall_collisions ws t = (case Tank_rect t of None \<Rightarrow> t | Some r \<Rightarrow> wall_loop ws r t)"

text \<open>\<^verbatim>\<open>Tank.update\<close>.\<close>

definition Tank_update :: "key_state \<Rightarrow> real \<Rightarrow> level \<Rightarrow> tank \<Rightarrow> tank" where
  "Tank_update keys dt lv t =
     (let t1 = (if alive t
                then
                  let a = t\<lparr>reload_time := clamp (reload_time t - dt) 0 (shell_cooldown t)\<rparr>;
                      b = (if is_player a then update_player keys dt a else update_enemy dt lv a)
                  in handle_wall_collisions (walls lv) b
                else t)
      in t1\<lparr>shells := filter s_alive (map (Shell_update dt (walls lv)) (shells t1))\<rparr>)"

section \<open>Level construction\<close>

definition tile_rect :: "int \<Rightarrow> int \<Rightarrow> rect" where
  "tile_rect x y = Rect (x * TILE_SIZE) (y * TILE_SIZE) TILE_SIZE TILE_SIZE"

text \<open>
  The first loop nest of \<^verbatim>\<open>generate_map\<close>: rows \<^verbatim>\<open>range(1, GRID_HEIGHT - 1)\<close>, columns
  \<^verbatim>\<open>range(GRID_WIDTH)\<close>, one call of \<^verbatim>\<open>rng.random()\<close> per tile visited.
\<close>

fun random_row :: "'g rng \<Rightarrow> int \<Rightarrow> int list \<Rightarrow> rect list \<times> 'g \<Rightarrow> rect list \<times> 'g" where
  "random_row R y [] (ws, g) = (ws, g)"
| "random_row R y (x # xs) (ws, g) =
     (let (r, g') = rng_random R g in
      random_row R y xs (if r < 12 / 100 then ws @ [tile_rect x y] else ws, g'))"

fun random_rows :: "'g rng \<Rightarrow> int list \<Rightarrow> rect list \<times> 'g \<Rightarrow> rect list \<times> 'g" where
  "random_rows R [] s = s"
| "random_rows R (y # ys) s = random_rows R ys (random_row R y [0..GRID_WIDTH - 1] s)"

text \<open>
  The draws of \<^verbatim>\<open>rng.random()\<close> in order: \<open>skip_random\<close> is the generator after one
  draw, \<open>nth_random R g i\<close> the value of draw \<open>i\<close> from state \<open>g\<close>.
\<close>

definition skip_random :: "'g rng \<Rightarrow> 'g \<Rightarrow> 'g" where
  "skip_random R g = snd (rng_random R g)"

definition nth_random :: "'g rng \<Rightarrow> 'g \<Rightarrow> nat \<Rightarrow> real" where
  "nth_random R g i = fst (rng_random R ((skip_random R ^^ i) g))"

definition border_walls :: "rect list" where
  "border_walls =
     concat (map (\<lambda>x. [tile_rect x 0, tile_rect x (GRID_HEIGHT - 1)]) [0..GRID_WIDTH - 1]) @
     concat (map (\<lambda>y. [tile_rect 0 y, tile_rect (GRID_WIDTH - 1) y]) [0..GRID_HEIGHT - 1])"

definition player_tile :: "tank \<Rightarrow> int \<times> int" where
  "player_tile p =
     (\<lfloor>fst (position p) / of_int TILE_SIZE\<rfloor>, \<lfloor>snd (position p) / of_int TILE_SIZE\<rfloor>)"

definition safe_tiles :: "tank \<Rightarrow> (int \<times> int) list" where
  "safe_tiles p =
     (let safe_radius = 2;
          player_tile_x = fst (player_tile p);
          player_tile_y = snd (player_tile p)
      in concat (map (\<lambda>dy. map (\<lambda>dx.
           (max 0 (min (GRID_WIDTH - 1) (player_tile_x + dx)),
            max 0 (min (GRID_HEIGHT - 1) (player_tile_y + dy))))
           [- safe_radius..safe_radius]) [- safe_radius..safe_radius]))"

definition is_safe :: "(int \<times> int) list \<Rightarrow> rect \<Rightarrow> bool" where
  "is_safe tiles r =
     (let tile_x = rect_x r div TILE_SIZE; tile_y = rect_y r div TILE_SIZE in
      if tile_x \<in> {0, GRID_WIDTH - 1} \<or> tile_y \<in> {0, GRID_HEIGHT - 1} then False
      else (tile_x, tile_y) \<in> set tiles)"

definition carve_player_spawn :: "level \<Rightarrow> level" where
  "carve_player_spawn lv =
     lv\<lparr>walls := filter (\<lambda>wall. \<not> is_safe (safe_tiles (player lv)) wall) (walls lv)\<rparr>"

definition generate_map :: "'g rng \<Rightarrow> level \<Rightarrow> level" where
  "generate_map R lv =
     (let (ws, g) = random_rows R [1..GRID_HEIGHT - 2] ([], rng_seed R (number lv)) in
      carve_player_spawn (lv\<lparr>walls := ws @ border_walls\<rparr>))"

text \<open>
  \<^verbatim>\<open>spawn_enemies\<close>: \<open>place_attempts\<close> is the inner loop over \<^verbatim>\<open>range(100)\<close> (its
  result is the accepted position, or \<open>None\<close> when the loop ends without a
  \<^verbatim>\<open>break\<close>); \<open>spawn_slots\<close> is the outer loop over \<^verbatim>\<open>range(enemy_count)\<close>.
\<close>

definition candidate_position :: "int \<Rightarrow> int \<Rightarrow> vec2" where
  "candidate_position x y =
     (of_int (x * TILE_SIZE) + of_int TILE_SIZE / 2, of_int (y * TILE_SIZE) + of_int TILE_SIZE / 2)"

definition candidate_rect :: "vec2 \<Rightarrow> rect" where
  "candidate_rect p = Rect (py_int (fst p - 24)) (py_int (snd p - 24)) 48 48"

definition draw_candidate :: "'g rng \<Rightarrow> 'g \<Rightarrow> vec2 \<times> 'g" where
  "draw_candidate R g =
     (let (x, g1) = rng_randint R g 1 (GRID_WIDTH - 2);
          (y, g2) = rng_randint R g1 1 (GRID_HEIGHT div 2)
      in (candidate_position x y, g2))"

fun place_attempts :: "'g rng \<Rightarrow> rect list \<Rightarrow> nat \<Rightarrow> 'g \<Rightarrow> vec2 option \<times> 'g" where
  "place_attempts R ws 0 g = (None, g)"
| "place_attempts R ws (Suc k) g =
     (let (p, g') = draw_candidate R g in
      if \<not> list_ex (colliderect (candidate_rect p)) ws then (Some p, g')
      else place_attempts R ws k g')"




definition fresh_ident :: "level \<Rightarrow> nat" where
  "fresh_ident lv = Suc (fold max (map ident (player lv # enemies lv)) 0)"

fun spawn_slots :: "'g rng \<Rightarrow> nat \<Rightarrow> level \<times> 'g \<Rightarrow> level \<times> 'g" where
  "spawn_slots R 0 s = s"
| "spawn_slots R (Suc n) (lv, g) =
     (case place_attempts R (walls lv) 100 g of
        (None, g') \<Rightarrow> spawn_slots R n (lv, g')
      | (Some p, g') \<Rightarrow>
          spawn_slots R n
            (lv\<lparr>enemies := enemies lv @
                 [Tank (fresh_ident lv) p 90 COLOR_enemy ENEMY_SPEED ENEMY_ROTATION_SPEED False]\<rparr>, g'))"

definition enemy_count :: "int \<Rightarrow> int" where
  "enemy_count n = py_int (of_int LEVEL_BASE_ENEMIES + of_int (n - 1) * LEVEL_ENEMY_SCALE)"

definition spawn_enemies :: "'g rng \<Rightarrow> level \<Rightarrow> level" where
  "spawn_enemies R lv =
     fst (spawn_slots R (nat (enemy_count (number lv))) (lv, rng_seed R (number lv * 31 + 7)))"

text \<open>\<^verbatim>\<open>Level.__init__\<close>.\<close>

definition player_spawn :: vec2 where
  "player_spawn = (of_int SCREEN_WIDTH / 2, of_int SCREEN_HEIGHT - of_int TILE_SIZE * 15 / 10)"

definition Level :: "'g rng \<Rightarrow> int \<Rightarrow> level" where
  "Level R n =
     spawn_enemies R (generate_map R
       \<lparr>number = n, walls = [], enemies = [],
        player = Tank 0 player_spawn (- 90) COLOR_player PLAYER_SPEED PLAYER_ROTATION_SPEED True,
        player_destroyed = False\<rparr>)"

section \<open>Level update\<close>

text \<open>
  \<^verbatim>\<open>Level._handle_shell_collisions\<close>. The tanks \<^verbatim>\<open>[self.player] + self.enemies\<close> are a
  list, updated in place while the three loops run. \<open>first_hit\<close> is the innermost loop:
  the index of the first target that is not the shell's owner and whose rectangle
  contains the shell's position. \<open>shell_step i j\<close> is the body of the middle loop for
  shell \<open>j\<close> of tank \<open>i\<close>.
\<close>

fun first_hit :: "shell \<Rightarrow> tank list \<Rightarrow> nat option" where
  "first_hit sh [] = None"
| "first_hit sh (target # ts) =
     (if ident target = s_owner sh then map_option Suc (first_hit sh ts)
      else case Tank_rect target of
             None \<Rightarrow> map_option Suc (first_hit sh ts)
           | Some r \<Rightarrow>
               if collidepoint r (fst (s_position sh)) (snd (s_position sh)) then Some 0
               else map_option Suc (first_hit sh ts))"

definition shell_step :: "nat \<Rightarrow> nat \<Rightarrow> tank list \<Rightarrow> tank list" where
  "shell_step i j ts =
     (let sh = shells (ts ! i) ! j in
      if \<not> s_alive sh then ts
      else case first_hit sh ts of
             None \<Rightarrow> ts
           | Some k \<Rightarrow>
               (let ts1 = ts[i := (ts ! i)\<lparr>shells := (shells (ts ! i))[j := sh\<lparr>s_alive := False\<rparr>]\<rparr>]
                in ts1[k := (ts1 ! k)\<lparr>alive := False\<rparr>]))"

definition tank_shells_step :: "nat \<Rightarrow> tank list \<Rightarrow> tank list" where
  "tank_shells_step i ts = fold (shell_step i) [0..<length (shells (ts ! i))] ts"

definition handle_shell_collisions :: "level \<Rightarrow> level" where
  "handle_shell_collisions lv =
     (let ts = fold tank_shells_step [0..<Suc (length (enemies lv))] (player lv # enemies lv)
      in lv\<lparr>player := hd ts, enemies := tl ts\<rparr>)"

text \<open>
  \<^verbatim>\<open>Level.update\<close>: the returned flag and the level after the frame. The tanks are
  updated in place, the player first. A tank's update reads only the walls and the
  player of the level it is given, so each enemy is updated against the level that
  holds the updated player, whatever the enemies updated before it have become.
\<close>

definition Level_update :: "key_state \<Rightarrow> real \<Rightarrow> level \<Rightarrow> bool \<times> level" where
  "Level_update keys dt lv =
     (let lv1 = lv\<lparr>player := Tank_update keys dt lv (player lv)\<rparr>;
          lv2 = lv1\<lparr>enemies := map (Tank_update keys dt lv1) (enemies lv1)\<rparr>;
          lv3 = handle_shell_collisions lv2;
          lv4 = lv3\<lparr>enemies := filter alive (enemies lv3)\<rparr>;
          lv5 = lv4\<lparr>player_destroyed := \<not> alive (player lv4)\<rparr>
      in (length (enemies lv5) = 0 \<and> alive (player lv5), lv5))"

section \<open>Sequences of tank operations\<close>

text \<open>
  The two operations that touch a tank's reload timer, and a sequence of them applied
  to one tank. Each update comes with its own keyboard state, time step and level.
\<close>

datatype tank_op = Op_update key_state real level | Op_fire

fun apply_op :: "tank_op \<Rightarrow> tank \<Rightarrow> tank" where
  "apply_op (Op_update keys dt lv) t = Tank_update keys dt lv t"
| "apply_op Op_fire t = fire t"

definition run_ops :: "tank_op list \<Rightarrow> tank \<Rightarrow> tank" where
  "run_ops ops t = fold apply_op ops t"

definition reload_ok :: "tank \<Rightarrow> bool" where
  "reload_ok t \<longleftrightarrow> 0 \<le> reload_time t \<and> reload_time t \<le> shell_cooldown t"

definition timers :: "tank \<Rightarrow> real \<times> real" where
  "timers t = (reload_time t, shell_cooldown t)"

definition level_reload_ok :: "level \<Rightarrow> bool" where
  "level_reload_ok lv \<longleftrightarrow> reload_ok (player lv) \<and> list_all reload_ok (enemies lv)"

section \<open>Sequences of frames\<close>




section \<open>Test fixtures\<close>

text \<open>
  \<open>empty_level n\<close> is the state of a \<^verbatim>\<open>Level\<close> object after the field assignments of
  \<^verbatim>\<open>__init__\<close> and before \<^verbatim>\<open>generate_map\<close>; \<open>player_at p\<close> is that level with the player
  moved to \<open>p\<close>, and \<open>enemy_at p a\<close> an enemy tank as \<^verbatim>\<open>spawn_enemies\<close> builds it, at
  position \<open>p\<close> with heading \<open>a\<close>. \<open>duel_level\<close> is a level in play, with only the border
  walls: the player at its spawn point with a shell in flight towards the first enemy,
  straight above it; that enemy with a shell of its own in flight towards the player;
  and a second enemy further up; \<open>dead_duel_level\<close> is the same level with the player
  already dead. A random source for concrete runs: \<^verbatim>\<open>random()\<close> always returns \<open>r\<close> and
  \<^verbatim>\<open>randint(a, b)\<close> always returns \<open>a\<close>; its state counts the draws made.
\<close>

definition empty_level :: "int \<Rightarrow> level" where
  "empty_level n =
     \<lparr>number = n, walls = [], enemies = [],
      player = Tank 0 player_spawn (- 90) COLOR_player PLAYER_SPEED PLAYER_ROTATION_SPEED True,
      player_destroyed = False\<rparr>"


definition enemy_at :: "vec2 \<Rightarrow> real \<Rightarrow> tank" where
  "enemy_at p a = Tank 1 p a COLOR_enemy ENEMY_SPEED ENEMY_ROTATION_SPEED False"






definition no_keys :: key_state where
  "no_keys =
     \<lparr>K_w = False, K_UP = False, K_s = False, K_DOWN = False,
      K_a = False, K_LEFT = False, K_d = False, K_RIGHT = False\<rparr>"

definition const_rng :: "real \<Rightarrow> nat rng" where
  "const_rng r =
     \<lparr>rng_seed = (\<lambda>s. 0), rng_random = (\<lambda>g. (r, Suc g)), rng_randint = (\<lambda>g a b. (a, Suc g))\<rparr>"

section \<open>Level construction: walls\<close>

lemma spawn_slots_frame:
  "walls (fst (spawn_slots R n (lv, g))) = walls lv \<and>
   player (fst (spawn_slots R n (lv, g))) = player lv \<and>
   number (fst (spawn_slots R n (lv, g))) = number lv"
  by (induction n arbitrary: lv g) (auto split: prod.splits option.splits)

lemma spawn_enemies_walls: "walls (spawn_enemies R lv) = walls lv"
  by (simp add: spawn_enemies_def spawn_slots_frame)

lemma random_row_set:
  "set (fst (random_row R y xs (ws, g))) \<subseteq> set ws \<union> (\<lambda>x. tile_rect x y) ` set xs"
proof (induction xs arbitrary: ws g)
  case Nil
  then show ?case by simp
next
  case (Cons x xs)
  obtain r g' where d: "rng_random R g = (r, g')"
    by (cases "rng_random R g")
  show ?case
  proof (cases "r < 12 / 100")
    case True
    then have "random_row R y (x # xs) (ws, g) = random_row R y xs (ws @ [tile_rect x y], g')"
      using d by simp
    then show ?thesis
      using Cons.IH [of "ws @ [tile_rect x y]" g'] by auto
  next
    case False
    then have "random_row R y (x # xs) (ws, g) = random_row R y xs (ws, g')"
      using d by simp
    then show ?thesis
      using Cons.IH [of ws g'] by auto
  qed
qed

lemma random_rows_set:
  "set (fst (random_rows R ys (ws, g))) \<subseteq>
     set ws \<union> {tile_rect x y | x y. x \<in> {0..GRID_WIDTH - 1} \<and> y \<in> set ys}"
proof (induction ys arbitrary: ws g)
  case Nil
  then show ?case by simp
next
  case (Cons y ys)
  obtain ws' g' where r: "random_row R y [0..GRID_WIDTH - 1] (ws, g) = (ws', g')"
    by (cases "random_row R y [0..GRID_WIDTH - 1] (ws, g)")
  have a: "set ws' \<subseteq> set ws \<union> (\<lambda>x. tile_rect x y) ` {0..GRID_WIDTH - 1}"
    using random_row_set [of R y "[0..GRID_WIDTH - 1]" ws g] r by simp
  have b: "set (fst (random_rows R ys (ws', g'))) \<subseteq>
     set ws' \<union> {tile_rect x y | x y. x \<in> {0..GRID_WIDTH - 1} \<and> y \<in> set ys}"
    by (rule Cons.IH)
  have c: "random_rows R (y # ys) (ws, g) = random_rows R ys (ws', g')"
    using r by simp
  show ?case
  proof
    fix w assume "w \<in> set (fst (random_rows R (y # ys) (ws, g)))"
    then have "w \<in> set ws' \<or> (\<exists>x' y'. w = tile_rect x' y' \<and> x' \<in> {0..GRID_WIDTH - 1} \<and> y' \<in> set ys)"
      using b c by auto
    then show "w \<in> set ws \<union> {tile_rect x y' | x y'. x \<in> {0..GRID_WIDTH - 1} \<and> y' \<in> set (y # ys)}"
      using a by fastforce
  qed
qed

lemma border_walls_mem:
  assumes "x \<in> {0..GRID_WIDTH - 1}" "y \<in> {0..GRID_HEIGHT - 1}"
    and "x = 0 \<or> x = GRID_WIDTH - 1 \<or> y = 0 \<or> y = GRID_HEIGHT - 1"
  shows "tile_rect x y \<in> set border_walls"
  using assms unfolding border_walls_def by auto

lemma border_walls_tiles:
  assumes "w \<in> set border_walls"
  shows "\<exists>x y. w = tile_rect x y \<and> x \<in> {0..GRID_WIDTH - 1} \<and> y \<in> {0..GRID_HEIGHT - 1} \<and>
        (x = 0 \<or> x = GRID_WIDTH - 1 \<or> y = 0 \<or> y = GRID_HEIGHT - 1)"
proof -
  have g: "0 \<le> GRID_WIDTH - 1" "0 \<le> GRID_HEIGHT - 1"
    by (simp_all add: grid_defs)
  from assms consider
      x where "x \<in> {0..GRID_WIDTH - 1}" "w = tile_rect x 0 \<or> w = tile_rect x (GRID_HEIGHT - 1)"
    | y where "y \<in> {0..GRID_HEIGHT - 1}" "w = tile_rect 0 y \<or> w = tile_rect (GRID_WIDTH - 1) y"
    unfolding border_walls_def by auto
  then show ?thesis
  proof cases
    case 1
    then show ?thesis using g by (metis atLeastAtMost_iff order_refl)
  next
    case 2
    then show ?thesis using g by (metis atLeastAtMost_iff order_refl)
  qed
qed

lemma tile_of_tile_rect:
  "rect_x (tile_rect x y) div TILE_SIZE = x" "rect_y (tile_rect x y) div TILE_SIZE = y"
  by (simp_all add: tile_rect_def TILE_SIZE_def)

lemma colliderect_tiles:
  "colliderect (tile_rect a b) (tile_rect x y) \<longleftrightarrow> a = x \<and> b = y"
  by (auto simp: colliderect_def tile_rect_def TILE_SIZE_def rect_left_def rect_right_def rect_top_def rect_bottom_def)

lemma generate_map_walls:
  "walls (generate_map R lv) =
     filter (\<lambda>wall. \<not> is_safe (safe_tiles (player lv)) wall)
       (fst (random_rows R [1..GRID_HEIGHT - 2] ([], rng_seed R (number lv))) @ border_walls)"
  by (simp add: generate_map_def carve_player_spawn_def split: prod.splits)

lemma generate_map_frame:
  "player (generate_map R lv) = player lv" "number (generate_map R lv) = number lv"
  "enemies (generate_map R lv) = enemies lv"
  by (simp_all add: generate_map_def carve_player_spawn_def split: prod.splits)

lemma Level_walls:
  "walls (Level R n) =
     filter (\<lambda>wall. \<not> is_safe (safe_tiles (Tank 0 player_spawn (- 90) COLOR_player PLAYER_SPEED PLAYER_ROTATION_SPEED True)) wall)
       (fst (random_rows R [1..GRID_HEIGHT - 2] ([], rng_seed R n)) @ border_walls)"
  by (simp add: Level_def spawn_enemies_def spawn_slots_frame generate_map_walls)

lemma Level_player:
  "player (Level R n) = Tank 0 player_spawn (- 90) COLOR_player PLAYER_SPEED PLAYER_ROTATION_SPEED True"
  by (simp add: Level_def spawn_enemies_def spawn_slots_frame generate_map_frame)

lemma player_tile_spawn:
  "player_tile (Tank 0 player_spawn (- 90) COLOR_player PLAYER_SPEED PLAYER_ROTATION_SPEED True) = (10, 13)"
proof -
  have "\<lfloor>(648::real) / 48\<rfloor> = 13" by linarith
  then show ?thesis
    by (simp add: player_tile_def Tank_def player_spawn_def grid_defs)
qed

lemma is_safe_border:
  assumes "x = 0 \<or> x = GRID_WIDTH - 1 \<or> y = 0 \<or> y = GRID_HEIGHT - 1"
  shows "\<not> is_safe tiles (tile_rect x y)"
  using assms by (auto simp: is_safe_def tile_rect_def TILE_SIZE_def)

lemma grid_mem:
  "a \<in> set as \<Longrightarrow> b \<in> set bs \<Longrightarrow> f a b \<in> set (concat (map (\<lambda>a. map (\<lambda>b. f a b) bs) as))"
  by auto

lemma safe_tiles_mem:
  assumes "0 \<le> x" "x \<le> GRID_WIDTH - 1" "0 \<le> y" "y \<le> GRID_HEIGHT - 1"
    and "\<bar>x - fst (player_tile p)\<bar> \<le> 2"
    and "\<bar>y - snd (player_tile p)\<bar> \<le> 2"
  shows "(x, y) \<in> set (safe_tiles p)"
proof -
  let ?tx = "fst (player_tile p)"
  let ?ty = "snd (player_tile p)"
  have dx: "x - ?tx \<in> set [- 2..2]" and dy: "y - ?ty \<in> set [- 2..2]"
    using assms by auto
  have ex: "max 0 (min (GRID_WIDTH - 1) (?tx + (x - ?tx))) = x"
    and ey: "max 0 (min (GRID_HEIGHT - 1) (?ty + (y - ?ty))) = y"
    using assms by auto
  have "(\<lambda>dy dx. (max 0 (min (GRID_WIDTH - 1) (?tx + dx)),
            max 0 (min (GRID_HEIGHT - 1) (?ty + dy)))) (y - ?ty) (x - ?tx)
        \<in> set (concat (map (\<lambda>dy. map (\<lambda>dx. (max 0 (min (GRID_WIDTH - 1) (?tx + dx)),
            max 0 (min (GRID_HEIGHT - 1) (?ty + dy)))) [- 2..2]) [- 2..2]))"
    using dy dx by (rule grid_mem)
  then have "(x, y) \<in> set (concat (map (\<lambda>dy. map (\<lambda>dx. (max 0 (min (GRID_WIDTH - 1) (?tx + dx)),
            max 0 (min (GRID_HEIGHT - 1) (?ty + dy)))) [- 2..2]) [- 2..2]))"
    by (simp only: ex ey)
  then show ?thesis
    unfolding safe_tiles_def Let_def .
qed

lemma generate_map_border:
  assumes "x \<in> {0..GRID_WIDTH - 1}" "y \<in> {0..GRID_HEIGHT - 1}"
    and "x = 0 \<or> x = GRID_WIDTH - 1 \<or> y = 0 \<or> y = GRID_HEIGHT - 1"
  shows "tile_rect x y \<in> set (walls (generate_map R lv))"
  using border_walls_mem [OF assms] is_safe_border [OF assms(3)]
  by (simp add: generate_map_walls)

lemma generate_map_tiles:
  assumes "w \<in> set (walls (generate_map R lv))"
  shows "\<exists>a b. w = tile_rect a b \<and> a \<in> {0..GRID_WIDTH - 1} \<and> b \<in> {0..GRID_HEIGHT - 1} \<and>
           \<not> is_safe (safe_tiles (player lv)) w"
proof -
  let ?ws = "fst (random_rows R [1..GRID_HEIGHT - 2] ([], rng_seed R (number lv)))"
  from assms have s: "\<not> is_safe (safe_tiles (player lv)) w" and m: "w \<in> set ?ws \<or> w \<in> set border_walls"
    by (auto simp: generate_map_walls)
  from m show ?thesis
  proof
    assume "w \<in> set ?ws"
    then obtain a b where "w = tile_rect a b" "a \<in> {0..GRID_WIDTH - 1}" "b \<in> set [1..GRID_HEIGHT - 2]"
      using random_rows_set [of R "[1..GRID_HEIGHT - 2]" "[]" "rng_seed R (number lv)"] by auto
    then have "w = tile_rect a b \<and> a \<in> {0..GRID_WIDTH - 1} \<and> b \<in> {0..GRID_HEIGHT - 1}"
      by auto
    then show ?thesis using s by blast
  next
    assume "w \<in> set border_walls"
    then show ?thesis using border_walls_tiles [of w] s by blast
  qed
qed

lemma generate_map_spawn_clear:
  assumes x: "0 < x" "x < GRID_WIDTH - 1" and y: "0 < y" "y < GRID_HEIGHT - 1"
    and near: "\<bar>x - fst (player_tile (player lv))\<bar> \<le> 2" "\<bar>y - snd (player_tile (player lv))\<bar> \<le> 2"
    and w: "w \<in> set (walls (generate_map R lv))"
  shows "\<not> colliderect w (tile_rect x y)"
proof
  assume c: "colliderect w (tile_rect x y)"
  obtain a b where ab: "w = tile_rect a b" and s: "\<not> is_safe (safe_tiles (player lv)) w"
    using generate_map_tiles [OF w] by blast
  from c ab have e: "a = x" "b = y"
    by (simp_all add: colliderect_tiles)
  have "(x, y) \<in> set (safe_tiles (player lv))"
    using x y near by (intro safe_tiles_mem) simp_all
  then have "is_safe (safe_tiles (player lv)) (tile_rect x y)"
    using x y by (simp add: is_safe_def Let_def tile_of_tile_rect)
  then show False using s ab e by simp
qed

text \<open>
  Claim C6. For every level number \<open>n\<close> (and every behaviour of the random source), after
  \<^verbatim>\<open>Level(n)\<close> is constructed the player's spawn tile is \<open>(10, 13)\<close>, every tile of
  the outer ring of the grid is in the wall list, and no wall overlaps a non-border
  tile within Chebyshev distance 2 of the spawn tile.
\<close>

theorem level_border_and_spawn_clear:
  "player_tile (player (Level R n)) = (10, 13) \<and>
   (\<forall>x y. x \<in> {0..GRID_WIDTH - 1} \<and> y \<in> {0..GRID_HEIGHT - 1} \<and>
        (x = 0 \<or> x = GRID_WIDTH - 1 \<or> y = 0 \<or> y = GRID_HEIGHT - 1) \<longrightarrow>
      tile_rect x y \<in> set (walls (Level R n))) \<and>
   (\<forall>x y. 0 < x \<and> x < GRID_WIDTH - 1 \<and> 0 < y \<and> y < GRID_HEIGHT - 1 \<and>
        max \<bar>x - 10\<bar> \<bar>y - 13\<bar> \<le> 2 \<longrightarrow>
      (\<forall>w \<in> set (walls (Level R n)). \<not> colliderect w (tile_rect x y)))"
proof -
  let ?l0 = "\<lparr>number = n, walls = [], enemies = [],
        player = Tank 0 player_spawn (- 90) COLOR_player PLAYER_SPEED PLAYER_ROTATION_SPEED True,
        player_destroyed = False\<rparr>"
  have w: "walls (Level R n) = walls (generate_map R ?l0)"
    by (simp add: Level_def spawn_enemies_def spawn_slots_frame)
  have p: "player_tile (player ?l0) = (10, 13)"
    using player_tile_spawn by simp
  have t: "player_tile (player (Level R n)) = (10, 13)"
    using player_tile_spawn by (simp add: Level_player)
  have b: "tile_rect x y \<in> set (walls (Level R n))"
    if "x \<in> {0..GRID_WIDTH - 1}" "y \<in> {0..GRID_HEIGHT - 1}"
       "x = 0 \<or> x = GRID_WIDTH - 1 \<or> y = 0 \<or> y = GRID_HEIGHT - 1" for x y
    unfolding w using that by (rule generate_map_border)
  have c: "\<not> colliderect wl (tile_rect x y)"
    if "0 < x" "x < GRID_WIDTH - 1" "0 < y" "y < GRID_HEIGHT - 1" "max \<bar>x - 10\<bar> \<bar>y - 13\<bar> \<le> 2"
       "wl \<in> set (walls (Level R n))" for x y wl
  proof (rule generate_map_spawn_clear [where lv = ?l0 and R = R])
    show "\<bar>x - fst (player_tile (player ?l0))\<bar> \<le> 2" "\<bar>y - snd (player_tile (player ?l0))\<bar> \<le> 2"
      using that(5) unfolding p by simp_all
    show "wl \<in> set (walls (generate_map R ?l0))"
      using that(6) w by simp
  qed (use that in simp_all)
  show ?thesis
    using t b c by blast
qed

theorem level_border_and_spawn_clear_witness:
  "player_tile (player (Level (const_rng (1 / 2)) 1)) = (10, 13) \<and>
   tile_rect 0 5 \<in> set (walls (Level (const_rng (1 / 2)) 1)) \<and>
   \<not> colliderect (tile_rect 0 5) (tile_rect 9 12) \<and>
   \<not> list_ex (\<lambda>w. colliderect w (tile_rect 9 12)) (walls (Level (const_rng (1 / 2)) 1))"
proof -
  note th = level_border_and_spawn_clear [of "const_rng (1 / 2)" 1]
  have h1: "(0::int) \<in> {0..GRID_WIDTH - 1} \<and> (5::int) \<in> {0..GRID_HEIGHT - 1} \<and>
      ((0::int) = 0 \<or> (0::int) = GRID_WIDTH - 1 \<or> (5::int) = 0 \<or> (5::int) = GRID_HEIGHT - 1)"
    by (simp add: grid_defs)
  have h2: "(0::int) < 9 \<and> (9::int) < GRID_WIDTH - 1 \<and> (0::int) < 12 \<and> (12::int) < GRID_HEIGHT - 1 \<and>
      max \<bar>(9::int) - 10\<bar> \<bar>(12::int) - 13\<bar> \<le> 2"
    by (simp add: grid_defs)
  have p: "player_tile (player (Level (const_rng (1 / 2)) 1)) = (10, 13)"
    using th by (rule conjunct1)
  have a: "tile_rect 0 5 \<in> set (walls (Level (const_rng (1 / 2)) 1))"
    using th [THEN conjunct2, THEN conjunct1, THEN spec, THEN spec, THEN mp, OF h1] .
  have f: "\<forall>w \<in> set (walls (Level (const_rng (1 / 2)) 1)). \<not> colliderect w (tile_rect 9 12)"
    using th [THEN conjunct2, THEN conjunct2, THEN spec, THEN spec, THEN mp, OF h2] .
  have c: "\<not> colliderect (tile_rect 0 5) (tile_rect 9 12)"
    using f a by (rule bspec)
  have b: "\<not> list_ex (\<lambda>w. colliderect w (tile_rect 9 12)) (walls (Level (const_rng (1 / 2)) 1))"
    using f by (simp add: list_ex_iff)
  show ?thesis
    using p a c b by (intro conjI)
qed

section \<open>Level construction: enemy placement\<close>













































section \<open>Level construction: determinism\<close>

lemma random_row_cong:
  assumes "rng_random R1 = rng_random R2"
  shows "random_row R1 y xs (ws, g) = random_row R2 y xs (ws, g)"
proof (induction xs arbitrary: ws g)
  case Nil
  then show ?case by simp
next
  case (Cons x xs)
  obtain r g' where d: "rng_random R2 g = (r, g')"
    by (cases "rng_random R2 g")
  then show ?case using assms Cons.IH by simp
qed

lemma random_rows_cong:
  assumes "rng_random R1 = rng_random R2"
  shows "random_rows R1 ys s = random_rows R2 ys s"
proof (induction ys arbitrary: s)
  case Nil
  then show ?case by simp
next
  case (Cons y ys)
  obtain ws g where s: "s = (ws, g)" by (cases s)
  show ?case
    unfolding s using random_row_cong [OF assms] Cons.IH by simp
qed

lemma generate_map_cong:
  assumes "rng_random R1 = rng_random R2" "rng_seed R1 (number lv) = rng_seed R2 (number lv)"
  shows "generate_map R1 lv = generate_map R2 lv"
  unfolding generate_map_def using random_rows_cong [OF assms(1)] assms(2) by simp

lemma draw_candidate_cong:
  assumes "rng_randint R1 = rng_randint R2"
  shows "draw_candidate R1 g = draw_candidate R2 g"
  unfolding draw_candidate_def using assms by simp

lemma place_attempts_cong:
  assumes "rng_randint R1 = rng_randint R2"
  shows "place_attempts R1 ws k g = place_attempts R2 ws k g"
proof (induction k arbitrary: g)
  case 0
  then show ?case by simp
next
  case (Suc k)
  obtain p g' where d: "draw_candidate R2 g = (p, g')"
    by (cases "draw_candidate R2 g")
  then show ?case using draw_candidate_cong [OF assms] Suc.IH by simp
qed

lemma spawn_slots_cong:
  assumes "rng_randint R1 = rng_randint R2"
  shows "spawn_slots R1 k s = spawn_slots R2 k s"
proof (induction k arbitrary: s)
  case 0
  then show ?case by simp
next
  case (Suc k)
  obtain lv g where s: "s = (lv, g)" by (cases s)
  show ?case
    unfolding s using place_attempts_cong [OF assms] Suc.IH
    by (simp split: prod.splits option.splits)
qed

lemma spawn_enemies_cong:
  assumes "rng_randint R1 = rng_randint R2"
    "rng_seed R1 (number lv * 31 + 7) = rng_seed R2 (number lv * 31 + 7)"
  shows "spawn_enemies R1 lv = spawn_enemies R2 lv"
  unfolding spawn_enemies_def using spawn_slots_cong [OF assms(1)] assms(2) by simp

lemma generate_map_twice:
  "walls (generate_map R (generate_map R lv)) = walls (generate_map R lv)"
  by (simp add: generate_map_walls generate_map_frame)

lemma generate_map_same:
  assumes "number lv1 = number lv2" "player lv1 = player lv2"
  shows "walls (generate_map R lv1) = walls (generate_map R lv2)"
  using assms by (simp add: generate_map_walls)

text \<open>
  Claim C2. The walls \<^verbatim>\<open>generate_map\<close> builds depend on the level object only through
  its number and its player: the previous walls are discarded, so calling it twice
  gives the same walls. They depend on the random source only through the generator
  seeded with the level number: two sources that agree on \<^verbatim>\<open>Random(n)\<close> (and on the
  method \<^verbatim>\<open>random\<close>) give the same walls. The enemies are drawn from a generator of
  their own, seeded with \<open>n * 31 + 7\<close>: two sources that agree on both seeds give the
  same level.
\<close>

theorem level_determined_by_number:
  "walls (generate_map R (generate_map R lv)) = walls (generate_map R lv) \<and>
   (number lv1 = number lv2 \<and> player lv1 = player lv2 \<longrightarrow>
      walls (generate_map R lv1) = walls (generate_map R lv2)) \<and>
   (rng_random R1 = rng_random R2 \<and> rng_seed R1 n = rng_seed R2 n \<longrightarrow>
      walls (Level R1 n) = walls (Level R2 n)) \<and>
   (rng_random R1 = rng_random R2 \<and> rng_randint R1 = rng_randint R2 \<and>
    rng_seed R1 n = rng_seed R2 n \<and> rng_seed R1 (n * 31 + 7) = rng_seed R2 (n * 31 + 7) \<longrightarrow>
      Level R1 n = Level R2 n)"
proof (intro conjI impI)
  show "walls (generate_map R (generate_map R lv)) = walls (generate_map R lv)"
    by (rule generate_map_twice)
next
  assume "number lv1 = number lv2 \<and> player lv1 = player lv2"
  then show "walls (generate_map R lv1) = walls (generate_map R lv2)"
    using generate_map_same by blast
next
  assume a: "rng_random R1 = rng_random R2 \<and> rng_seed R1 n = rng_seed R2 n"
  have "generate_map R1 (empty_level n) = generate_map R2 (empty_level n)"
    using a by (intro generate_map_cong) (simp_all add: empty_level_def)
  then show "walls (Level R1 n) = walls (Level R2 n)"
    by (simp add: Level_def spawn_enemies_walls empty_level_def)
next
  assume a: "rng_random R1 = rng_random R2 \<and> rng_randint R1 = rng_randint R2 \<and>
    rng_seed R1 n = rng_seed R2 n \<and> rng_seed R1 (n * 31 + 7) = rng_seed R2 (n * 31 + 7)"
  have m: "generate_map R1 (empty_level n) = generate_map R2 (empty_level n)"
    using a by (intro generate_map_cong) (simp_all add: empty_level_def)
  have "spawn_enemies R1 (generate_map R2 (empty_level n)) = spawn_enemies R2 (generate_map R2 (empty_level n))"
    using a by (intro spawn_enemies_cong) (simp_all add: generate_map_frame empty_level_def)
  then show "Level R1 n = Level R2 n"
    using m by (simp add: Level_def empty_level_def)
qed

theorem level_determined_by_number_witness:
  "Level (const_rng (1 / 2)) 1 =
     Level ((const_rng (1 / 2))\<lparr>rng_seed := (\<lambda>s. if s = 1 \<or> s = 38 then 0 else 7)\<rparr>) 1 \<and>
   walls (generate_map (const_rng 0) (empty_level 3)) =
     walls (generate_map (const_rng 0) ((empty_level 3)\<lparr>walls := [tile_rect 5 5]\<rparr>)) \<and>
   walls (Level (const_rng (1 / 2)) 1) =
     walls (Level ((const_rng (1 / 2))\<lparr>rng_randint := (\<lambda>g a b. (b, Suc g))\<rparr>) 1)"
proof -
  let ?R1 = "const_rng (1 / 2)"
  let ?R2 = "(const_rng (1 / 2))\<lparr>rng_seed := (\<lambda>s. if s = 1 \<or> s = 38 then 0 else 7)\<rparr>"
  let ?R3 = "(const_rng (1 / 2))\<lparr>rng_randint := (\<lambda>g a b. (b, Suc g))\<rparr>"
  note th = level_determined_by_number [of "const_rng 0" "empty_level 3" "empty_level 3"
      "(empty_level 3)\<lparr>walls := [tile_rect 5 5]\<rparr>" ?R1 ?R2 1]
  note tw = level_determined_by_number [of "const_rng 0" "empty_level 3" "empty_level 3"
      "(empty_level 3)\<lparr>walls := [tile_rect 5 5]\<rparr>" ?R1 ?R3 1]
  have h1: "rng_random ?R1 = rng_random ?R2 \<and> rng_randint ?R1 = rng_randint ?R2 \<and>
    rng_seed ?R1 1 = rng_seed ?R2 1 \<and> rng_seed ?R1 (1 * 31 + 7) = rng_seed ?R2 (1 * 31 + 7)"
    by (simp add: const_rng_def)
  have h2: "number (empty_level 3) = number ((empty_level 3)\<lparr>walls := [tile_rect 5 5]\<rparr>) \<and>
      player (empty_level 3) = player ((empty_level 3)\<lparr>walls := [tile_rect 5 5]\<rparr>)"
    by simp
  have h3: "rng_random ?R1 = rng_random ?R3 \<and> rng_seed ?R1 1 = rng_seed ?R3 1"
    by (simp add: const_rng_def)
  have a: "Level ?R1 1 = Level ?R2 1"
    using th [THEN conjunct2, THEN conjunct2, THEN conjunct2] h1 by (rule mp)
  have b: "walls (generate_map (const_rng 0) (empty_level 3)) =
     walls (generate_map (const_rng 0) ((empty_level 3)\<lparr>walls := [tile_rect 5 5]\<rparr>))"
    using th [THEN conjunct2, THEN conjunct1] h2 by (rule mp)
  have c: "walls (Level ?R1 1) = walls (Level ?R3 1)"
    using tw [THEN conjunct2, THEN conjunct2, THEN conjunct1] h3 by (rule mp)
  show ?thesis using a b c by (intro conjI)
qed

section \<open>Level construction: the random pass\<close>

lemma nth_random_Suc: "nth_random R g (Suc i) = nth_random R (skip_random R g) i"
  unfolding nth_random_def by (simp only: funpow_Suc_right o_apply)

lemma nth_random_add: "nth_random R ((skip_random R ^^ k) g) i = nth_random R g (k + i)"
  unfolding nth_random_def by (simp only: funpow_add o_apply add.commute [of k i])

lemma upt_Suc_shift: "[0..<Suc n] = 0 # map Suc [0..<n]"
  by (simp only: upt_conv_Cons [OF zero_less_Suc] map_Suc_upt)

lemma random_row_char:
  "random_row R y xs (ws, g) =
     (ws @ map (\<lambda>i. tile_rect (xs ! i) y) (filter (\<lambda>i. nth_random R g i < 12 / 100) [0..<length xs]),
      (skip_random R ^^ length xs) g)"
proof (induction xs arbitrary: ws g)
  case Nil
  then show ?case by simp
next
  case (Cons x xs)
  define r where "r = nth_random R g 0"
  define g' where "g' = skip_random R g"
  have d: "rng_random R g = (r, g')"
    by (simp add: r_def g'_def nth_random_def skip_random_def)
  let ?ws = "if r < 12 / 100 then ws @ [tile_rect x y] else ws"
  have ih: "random_row R y xs (?ws, g') =
     (?ws @ map (\<lambda>i. tile_rect (xs ! i) y) (filter (\<lambda>i. nth_random R g' i < 12 / 100) [0..<length xs]),
      (skip_random R ^^ length xs) g')"
    by (rule Cons.IH)
  have step: "random_row R y (x # xs) (ws, g) = random_row R y xs (?ws, g')"
    using d by simp
  have f: "filter (\<lambda>i. nth_random R g i < 12 / 100) [0..<length (x # xs)] =
      (if r < 12 / 100 then [0] else []) @
      map Suc (filter (\<lambda>i. nth_random R g' i < 12 / 100) [0..<length xs])"
    by (simp add: upt_Suc_shift filter_map o_def nth_random_Suc r_def g'_def del: upt_Suc)
  have m: "map (\<lambda>i. tile_rect ((x # xs) ! i) y) (filter (\<lambda>i. nth_random R g i < 12 / 100) [0..<length (x # xs)]) =
      (if r < 12 / 100 then [tile_rect x y] else []) @
      map (\<lambda>i. tile_rect (xs ! i) y) (filter (\<lambda>i. nth_random R g' i < 12 / 100) [0..<length xs])"
    unfolding f by (simp add: o_def)
  have p: "(skip_random R ^^ length (x # xs)) g = (skip_random R ^^ length xs) g'"
    unfolding g'_def by (simp only: list.size funpow_Suc_right o_apply add_Suc_right add_0_right One_nat_def)
  show ?case
    unfolding step ih m p by simp
qed

lemma tile_rect_inj: "tile_rect a b = tile_rect c d \<longleftrightarrow> a = c \<and> b = d"
  by (simp add: tile_rect_def TILE_SIZE_def)

lemma random_row_grid:
  "random_row R y [0..GRID_WIDTH - 1] (ws, g) =
     (ws @ map (\<lambda>i. tile_rect (int i) y) (filter (\<lambda>i. nth_random R g i < 12 / 100) [0..<20]),
      (skip_random R ^^ 20) g)"
proof -
  have l: "length [0..GRID_WIDTH - 1] = 20"
    by (simp add: grid_defs)
  have n: "[0..GRID_WIDTH - 1] ! i = int i" if "i < 20" for i
    using that by (simp add: grid_defs)
  have "map (\<lambda>i. tile_rect ([0..GRID_WIDTH - 1] ! i) y) (filter (\<lambda>i. nth_random R g i < 12 / 100) [0..<20]) =
        map (\<lambda>i. tile_rect (int i) y) (filter (\<lambda>i. nth_random R g i < 12 / 100) [0..<20])"
    by (rule map_cong) (auto simp: n)
  then show ?thesis
    using random_row_char [of R y "[0..GRID_WIDTH - 1]" ws g] unfolding l by simp
qed

lemma random_rows_char:
  "random_rows R ys (ws, g) =
     (ws @ concat (map (\<lambda>j. map (\<lambda>i. tile_rect (int i) (ys ! j))
                  (filter (\<lambda>i. nth_random R g (j * 20 + i) < 12 / 100) [0..<20])) [0..<length ys]),
      (skip_random R ^^ (length ys * 20)) g)"
proof (induction ys arbitrary: ws g)
  case Nil
  then show ?case by simp
next
  case (Cons y ys)
  let ?row = "map (\<lambda>i. tile_rect (int i) y) (filter (\<lambda>i. nth_random R g i < 12 / 100) [0..<20])"
  let ?g = "(skip_random R ^^ 20) g"
  let ?F = "\<lambda>j. map (\<lambda>i. tile_rect (int i) ((y # ys) ! j))
                  (filter (\<lambda>i. nth_random R g (j * 20 + i) < 12 / 100) [0..<20])"
  let ?G = "\<lambda>j. map (\<lambda>i. tile_rect (int i) (ys ! j))
                  (filter (\<lambda>i. nth_random R ?g (j * 20 + i) < 12 / 100) [0..<20])"
  have step: "random_rows R (y # ys) (ws, g) = random_rows R ys (ws @ ?row, ?g)"
    by (simp add: random_row_grid)
  have ih: "random_rows R ys (ws @ ?row, ?g) =
      ((ws @ ?row) @ concat (map ?G [0..<length ys]), (skip_random R ^^ (length ys * 20)) ?g)"
    by (rule Cons.IH)
  have FG: "?F (Suc j) = ?G j" for j
    by (simp add: nth_random_add add.assoc)
  have F0: "?F 0 = ?row"
    by simp
  have "concat (map ?F [0..<length (y # ys)]) = ?F 0 @ concat (map (\<lambda>j. ?F (Suc j)) [0..<length ys])"
    by (simp add: upt_Suc_shift o_def del: upt_Suc)
  then have c: "concat (map ?F [0..<length (y # ys)]) = ?row @ concat (map ?G [0..<length ys])"
    unfolding FG F0 .
  have "length (y # ys) * 20 = length ys * 20 + 20"
    by simp
  then have p: "(skip_random R ^^ (length (y # ys) * 20)) g = (skip_random R ^^ (length ys * 20)) ?g"
    by (simp only: funpow_add o_apply)
  show ?case
    unfolding step ih c p by simp
qed

lemma random_pass_mem:
  assumes "x \<in> {0..GRID_WIDTH - 1}" "y \<in> {1..GRID_HEIGHT - 2}"
  shows "tile_rect x y \<in> set (fst (random_rows R [1..GRID_HEIGHT - 2] ([], g))) \<longleftrightarrow>
         nth_random R g (nat ((y - 1) * GRID_WIDTH + x)) < 12 / 100"
proof -
  have l: "length [1..GRID_HEIGHT - 2] = 13"
    by (simp add: grid_defs)
  have n: "[1..GRID_HEIGHT - 2] ! j = 1 + int j" if "j < 13" for j
    using that by (simp add: grid_defs)
  have x: "0 \<le> x" "x < 20" and y: "1 \<le> y" "y \<le> 13"
    using assms by (simp_all add: grid_defs)
  have idx: "nat ((y - 1) * GRID_WIDTH + x) = nat (y - 1) * 20 + nat x"
    using x y by (simp add: grid_defs nat_add_distrib nat_mult_distrib)
  have "tile_rect x y \<in> set (fst (random_rows R [1..GRID_HEIGHT - 2] ([], g))) \<longleftrightarrow>
        (\<exists>j<13. \<exists>i<20. nth_random R g (j * 20 + i) < 12 / 100 \<and>
           tile_rect x y = tile_rect (int i) ([1..GRID_HEIGHT - 2] ! j))"
    unfolding random_rows_char l by auto
  also have "\<dots> \<longleftrightarrow> (\<exists>j<13. \<exists>i<20. nth_random R g (j * 20 + i) < 12 / 100 \<and> x = int i \<and> y = 1 + int j)"
    using n by (auto simp: tile_rect_inj)
  also have "\<dots> \<longleftrightarrow> nth_random R g (nat (y - 1) * 20 + nat x) < 12 / 100"
  proof
    assume "\<exists>j<13. \<exists>i<20. nth_random R g (j * 20 + i) < 12 / 100 \<and> x = int i \<and> y = 1 + int j"
    then obtain j i where "nth_random R g (j * 20 + i) < 12 / 100" "x = int i" "y = 1 + int j"
      by blast
    then show "nth_random R g (nat (y - 1) * 20 + nat x) < 12 / 100"
      by simp
  next
    assume a: "nth_random R g (nat (y - 1) * 20 + nat x) < 12 / 100"
    have "nat (y - 1) < 13" "nat x < 20" "x = int (nat x)" "y = 1 + int (nat (y - 1))"
      using x y by simp_all
    then show "\<exists>j<13. \<exists>i<20. nth_random R g (j * 20 + i) < 12 / 100 \<and> x = int i \<and> y = 1 + int j"
      using a by blast
  qed
  finally show ?thesis
    unfolding idx .
qed

lemma random_pass_state:
  "snd (random_rows R [1..GRID_HEIGHT - 2] (ws, g)) = (skip_random R ^^ 260) g"
proof -
  have l: "length [1..GRID_HEIGHT - 2] = 13"
    by (simp add: grid_defs)
  show ?thesis
    unfolding random_rows_char l by simp
qed

lemma nth_random_const: "nth_random (const_rng r) g i = r"
  by (simp add: nth_random_def const_rng_def)

lemma skip_random_const: "(skip_random (const_rng r) ^^ k) g = g + k"
  by (induction k) (simp_all add: skip_random_def const_rng_def)

lemma random_pass_tiles:
  assumes "w \<in> set (fst (random_rows R [1..GRID_HEIGHT - 2] ([], g)))"
  shows "\<exists>x\<in>{0..GRID_WIDTH - 1}. \<exists>y\<in>{1..GRID_HEIGHT - 2}. w = tile_rect x y"
proof -
  obtain x y where "w = tile_rect x y" "x \<in> {0..GRID_WIDTH - 1}" "y \<in> set [1..GRID_HEIGHT - 2]"
    using random_rows_set [of R "[1..GRID_HEIGHT - 2]" "[]" g] assms by auto
  then have "x \<in> {0..GRID_WIDTH - 1} \<and> y \<in> {1..GRID_HEIGHT - 2} \<and> w = tile_rect x y"
    by simp
  then show ?thesis by blast
qed

text \<open>
  Claim C3, as stated, fails: the random draw is made for the tiles of the two border
  columns too. With a random source whose \<^verbatim>\<open>random()\<close> returns 0, the random pass
  of \<^verbatim>\<open>generate_map\<close> for level 1 puts a wall on tile \<open>(0, 1)\<close>, and makes 260 draws
  (13 rows of 20 columns), not one for each of the 234 interior tiles.
\<close>

theorem random_draw_interior_only_counterexample:
  "tile_rect 0 1 \<in> set (fst (random_rows (const_rng 0) [1..GRID_HEIGHT - 2] ([], rng_seed (const_rng 0) 1))) \<and>
   snd (random_rows (const_rng 0) [1..GRID_HEIGHT - 2] ([], rng_seed (const_rng 0) 1)) = 260"
proof -
  have "(0::int) \<in> {0..GRID_WIDTH - 1}" "(1::int) \<in> {1..GRID_HEIGHT - 2}"
    by (simp_all add: grid_defs)
  then have "tile_rect 0 1 \<in> set (fst (random_rows (const_rng 0) [1..GRID_HEIGHT - 2] ([], rng_seed (const_rng 0) 1)))"
    by (simp add: random_pass_mem nth_random_const)
  moreover have "snd (random_rows (const_rng 0) [1..GRID_HEIGHT - 2] ([], rng_seed (const_rng 0) 1)) = 260"
    by (simp only: random_pass_state skip_random_const) (simp add: const_rng_def)
  ultimately show ?thesis by (rule conjI)
qed

text \<open>
  Claim C3, amended. The random pass of \<^verbatim>\<open>generate_map\<close> makes one draw for every tile
  of the rows \<open>1..GRID_HEIGHT - 2\<close>, in all columns \<open>0..GRID_WIDTH - 1\<close> (the two border
  columns included), row by row: tile \<open>(x, y)\<close> gets a wall from this pass exactly when
  draw number \<open>(y - 1) * GRID_WIDTH + x\<close> is below 0.12, the pass places walls on no other
  tile and makes 260 draws. The border tiles are then appended whatever was drawn, and
  the spawn clearing keeps every tile of the outer ring.
\<close>

theorem random_draw_per_row_tile:
  "(\<forall>x\<in>{0..GRID_WIDTH - 1}. \<forall>y\<in>{1..GRID_HEIGHT - 2}.
      tile_rect x y \<in> set (fst (random_rows R [1..GRID_HEIGHT - 2] ([], g))) \<longleftrightarrow>
      nth_random R g (nat ((y - 1) * GRID_WIDTH + x)) < 12 / 100) \<and>
   (\<forall>w\<in>set (fst (random_rows R [1..GRID_HEIGHT - 2] ([], g))).
      \<exists>x\<in>{0..GRID_WIDTH - 1}. \<exists>y\<in>{1..GRID_HEIGHT - 2}. w = tile_rect x y) \<and>
   snd (random_rows R [1..GRID_HEIGHT - 2] ([], g)) = (skip_random R ^^ 260) g \<and>
   walls (generate_map R lv) =
     filter (\<lambda>wall. \<not> is_safe (safe_tiles (player lv)) wall)
       (fst (random_rows R [1..GRID_HEIGHT - 2] ([], rng_seed R (number lv))) @ border_walls) \<and>
   (\<forall>x\<in>{0..GRID_WIDTH - 1}. \<forall>y\<in>{0..GRID_HEIGHT - 1}.
      x = 0 \<or> x = GRID_WIDTH - 1 \<or> y = 0 \<or> y = GRID_HEIGHT - 1 \<longrightarrow>
      tile_rect x y \<in> set (walls (generate_map R lv)))"
proof (intro conjI ballI impI)
  fix x y assume "x \<in> {0..GRID_WIDTH - 1}" "y \<in> {1..GRID_HEIGHT - 2}"
  then show "tile_rect x y \<in> set (fst (random_rows R [1..GRID_HEIGHT - 2] ([], g))) \<longleftrightarrow>
      nth_random R g (nat ((y - 1) * GRID_WIDTH + x)) < 12 / 100"
    by (rule random_pass_mem)
next
  fix w assume "w \<in> set (fst (random_rows R [1..GRID_HEIGHT - 2] ([], g)))"
  then show "\<exists>x\<in>{0..GRID_WIDTH - 1}. \<exists>y\<in>{1..GRID_HEIGHT - 2}. w = tile_rect x y"
    by (rule random_pass_tiles)
next
  show "snd (random_rows R [1..GRID_HEIGHT - 2] ([], g)) = (skip_random R ^^ 260) g"
    by (rule random_pass_state)
next
  show "walls (generate_map R lv) =
     filter (\<lambda>wall. \<not> is_safe (safe_tiles (player lv)) wall)
       (fst (random_rows R [1..GRID_HEIGHT - 2] ([], rng_seed R (number lv))) @ border_walls)"
    by (rule generate_map_walls)
next
  fix x y assume "x \<in> {0..GRID_WIDTH - 1}" "y \<in> {0..GRID_HEIGHT - 1}"
    "x = 0 \<or> x = GRID_WIDTH - 1 \<or> y = 0 \<or> y = GRID_HEIGHT - 1"
  then show "tile_rect x y \<in> set (walls (generate_map R lv))"
    by (rule generate_map_border)
qed

theorem random_draw_per_row_tile_witness:
  "tile_rect 19 13 \<in> set (fst (random_rows (const_rng 0) [1..GRID_HEIGHT - 2] ([], 0))) \<and>
   (\<exists>x\<in>{0..GRID_WIDTH - 1}. \<exists>y\<in>{1..GRID_HEIGHT - 2}. tile_rect 19 13 = tile_rect x y) \<and>
   tile_rect 5 5 \<notin> set (fst (random_rows (const_rng (1 / 2)) [1..GRID_HEIGHT - 2] ([], 0))) \<and>
   tile_rect 19 14 \<in> set (walls (generate_map (const_rng (1 / 2)) (empty_level 1)))"
proof -
  note t0 = random_draw_per_row_tile [of "const_rng 0" 0 "empty_level 1"]
  note t1 = random_draw_per_row_tile [of "const_rng (1 / 2)" 0 "empty_level 1"]
  have m0: "(19::int) \<in> {0..GRID_WIDTH - 1}" "(13::int) \<in> {1..GRID_HEIGHT - 2}"
    and m1: "(5::int) \<in> {0..GRID_WIDTH - 1}" "(5::int) \<in> {1..GRID_HEIGHT - 2}"
    and m2: "(19::int) \<in> {0..GRID_WIDTH - 1}" "(14::int) \<in> {0..GRID_HEIGHT - 1}"
      "(19::int) = 0 \<or> (19::int) = GRID_WIDTH - 1 \<or> (14::int) = 0 \<or> (14::int) = GRID_HEIGHT - 1"
    by (simp_all add: grid_defs)
  have "tile_rect 19 13 \<in> set (fst (random_rows (const_rng 0) [1..GRID_HEIGHT - 2] ([], 0))) \<longleftrightarrow>
      nth_random (const_rng 0) 0 (nat ((13 - 1) * GRID_WIDTH + 19)) < 12 / 100"
    using t0 [THEN conjunct1, THEN bspec, OF m0(1), THEN bspec, OF m0(2)] .
  then have a: "tile_rect 19 13 \<in> set (fst (random_rows (const_rng 0) [1..GRID_HEIGHT - 2] ([], 0)))"
    by (simp add: nth_random_const)
  have d: "\<exists>x\<in>{0..GRID_WIDTH - 1}. \<exists>y\<in>{1..GRID_HEIGHT - 2}. tile_rect 19 13 = tile_rect x y"
    using t0 [THEN conjunct2, THEN conjunct1, THEN bspec, OF a] .
  have "tile_rect 5 5 \<in> set (fst (random_rows (const_rng (1 / 2)) [1..GRID_HEIGHT - 2] ([], 0))) \<longleftrightarrow>
      nth_random (const_rng (1 / 2)) 0 (nat ((5 - 1) * GRID_WIDTH + 5)) < 12 / 100"
    using t1 [THEN conjunct1, THEN bspec, OF m1(1), THEN bspec, OF m1(2)] .
  then have b: "tile_rect 5 5 \<notin> set (fst (random_rows (const_rng (1 / 2)) [1..GRID_HEIGHT - 2] ([], 0)))"
    by (simp add: nth_random_const)
  have c: "tile_rect 19 14 \<in> set (walls (generate_map (const_rng (1 / 2)) (empty_level 1)))"
    using t1 [THEN conjunct2, THEN conjunct2, THEN conjunct2, THEN conjunct2, THEN bspec, OF m2(1),
        THEN bspec, OF m2(2), THEN mp, OF m2(3)] .
  show ?thesis using a d b c by (intro conjI)
qed

section \<open>The reload timer\<close>

lemma fire_reload:
  "shell_cooldown (fire t) = shell_cooldown t"
  "reload_time (fire t) = (if reload_time t > 0 \<or> \<not> alive t then reload_time t else shell_cooldown t)"
  by (simp_all add: fire_def Let_def)

lemma fire_reload_ok: "reload_ok t \<Longrightarrow> reload_ok (fire t)"
  by (auto simp: reload_ok_def fire_reload)

lemma update_player_reload:
  "shell_cooldown (update_player keys dt t) = shell_cooldown t"
  "reload_time (update_player keys dt t) = reload_time t"
  by (simp_all add: update_player_def Let_def)

lemma update_enemy_reload_ok: "reload_ok t \<Longrightarrow> reload_ok (update_enemy dt lv t)"
proof -
  assume ok: "reload_ok t"
  have k: "reload_ok (t\<lparr>angle := a, position := p\<rparr>)" "reload_ok (t\<lparr>angle := a\<rparr>)"
    "reload_ok (t\<lparr>position := p\<rparr>)" for a p
    using ok by (simp_all add: reload_ok_def)
  show ?thesis
    unfolding update_enemy_def Let_def
    by (auto intro!: fire_reload_ok simp: k ok)
qed

lemma update_enemy_cooldown: "shell_cooldown (update_enemy dt lv t) = shell_cooldown t"
  by (simp add: update_enemy_def Let_def fire_reload)

lemma push_out_reload:
  "shell_cooldown (push_out r w t) = shell_cooldown t"
  "reload_time (push_out r w t) = reload_time t"
  by (simp_all add: push_out_def Let_def)

lemma wall_loop_reload:
  "shell_cooldown (wall_loop ws r t) = shell_cooldown t \<and>
   reload_time (wall_loop ws r t) = reload_time t"
  by (induction ws r t rule: wall_loop.induct)
     (auto simp: push_out_reload Let_def split: option.splits)

lemma handle_wall_collisions_reload:
  "shell_cooldown (handle_wall_collisions ws t) = shell_cooldown t"
  "reload_time (handle_wall_collisions ws t) = reload_time t"
  by (simp_all add: handle_wall_collisions_def wall_loop_reload split: option.splits)

lemma clamp_range: "0 \<le> hi \<Longrightarrow> 0 \<le> clamp v 0 hi \<and> clamp v 0 hi \<le> hi"
  by (simp add: clamp_def)

lemma Tank_update_reload_ok:
  assumes "reload_ok t"
  shows "reload_ok (Tank_update keys dt lv t)"
proof (cases "alive t")
  case False
  then show ?thesis using assms by (simp add: Tank_update_def reload_ok_def)
next
  case True
  let ?a = "t\<lparr>reload_time := clamp (reload_time t - dt) 0 (shell_cooldown t)\<rparr>"
  let ?b = "if is_player ?a then update_player keys dt ?a else update_enemy dt lv ?a"
  have "0 \<le> shell_cooldown t" using assms by (simp add: reload_ok_def)
  then have a: "reload_ok ?a"
    using clamp_range [of "shell_cooldown t" "reload_time t - dt"] by (simp add: reload_ok_def)
  have b: "reload_ok ?b"
  proof (cases "is_player ?a")
    case True
    then show ?thesis using a by (simp add: reload_ok_def update_player_reload)
  next
    case False
    then show ?thesis using update_enemy_reload_ok [OF a] by simp
  qed
  have "reload_ok (handle_wall_collisions (walls lv) ?b)"
    using b unfolding reload_ok_def by (simp only: handle_wall_collisions_reload)
  then show ?thesis
    using True by (simp add: Tank_update_def Let_def reload_ok_def)
qed

lemma Tank_update_clamps:
  assumes "alive t" "0 \<le> shell_cooldown t"
  shows "reload_ok (Tank_update keys dt lv t)"
proof -
  let ?a = "t\<lparr>reload_time := clamp (reload_time t - dt) 0 (shell_cooldown t)\<rparr>"
  let ?b = "if is_player ?a then update_player keys dt ?a else update_enemy dt lv ?a"
  have a: "reload_ok ?a"
    using clamp_range [OF assms(2), of "reload_time t - dt"] by (simp add: reload_ok_def)
  have b: "reload_ok ?b"
  proof (cases "is_player ?a")
    case True
    then show ?thesis using a by (simp add: reload_ok_def update_player_reload)
  next
    case False
    then show ?thesis using update_enemy_reload_ok [OF a] by simp
  qed
  have "reload_ok (handle_wall_collisions (walls lv) ?b)"
    using b unfolding reload_ok_def by (simp only: handle_wall_collisions_reload)
  then show ?thesis
    using assms(1) by (simp add: Tank_update_def Let_def reload_ok_def)
qed

lemma apply_op_reload_ok: "reload_ok t \<Longrightarrow> reload_ok (apply_op op t)"
  by (cases op) (simp_all add: Tank_update_reload_ok fire_reload_ok)

lemma run_ops_reload_ok: "reload_ok t \<Longrightarrow> reload_ok (run_ops ops t)"
  unfolding run_ops_def
  by (induction ops arbitrary: t) (simp_all add: apply_op_reload_ok)

lemma Tank_reload_ok: "reload_ok (Tank i p a c sp rs ip)"
  by (simp add: reload_ok_def Tank_def SHELL_COOLDOWN_def)

lemma timers_update_same:
  assumes "timers x = timers (ts ! i)"
  shows "map timers (ts[i := x]) = map timers ts"
proof (cases "i < length ts")
  case True
  then show ?thesis using assms by (simp add: map_update list_update_same_conv)
next
  case False
  then show ?thesis by (simp add: list_update_beyond)
qed

lemma shell_step_timers: "map timers (shell_step i j ts) = map timers ts"
proof -
  have a: "map timers (ts[i := (ts ! i)\<lparr>shells := s\<rparr>]) = map timers ts" for s
    by (rule timers_update_same) (simp add: timers_def)
  have b: "map timers (us[k := (us ! k)\<lparr>alive := False\<rparr>]) = map timers us" for us k
    by (rule timers_update_same) (simp add: timers_def)
  show ?thesis
    unfolding shell_step_def Let_def
    by (simp add: a b split: option.splits)
qed

lemma fold_shell_step_timers: "map timers (fold (shell_step i) js ts) = map timers ts"
  by (induction js arbitrary: ts) (simp_all add: shell_step_timers)

lemma tank_shells_step_timers: "map timers (tank_shells_step i ts) = map timers ts"
  by (simp add: tank_shells_step_def fold_shell_step_timers)

lemma fold_tank_shells_step_timers: "map timers (fold tank_shells_step is ts) = map timers ts"
  by (induction "is" arbitrary: ts) (simp_all add: tank_shells_step_timers)

lemma reload_ok_timers: "reload_ok t \<longleftrightarrow> 0 \<le> fst (timers t) \<and> fst (timers t) \<le> snd (timers t)"
  by (simp add: reload_ok_def timers_def)

lemma list_all_reload_ok_timers:
  "list_all reload_ok ts \<longleftrightarrow> list_all (\<lambda>p. 0 \<le> fst p \<and> fst p \<le> snd p) (map timers ts)"
  by (simp add: list_all_iff reload_ok_timers)

lemma handle_shell_collisions_reload_ok:
  assumes "level_reload_ok lv"
  shows "level_reload_ok (handle_shell_collisions lv)"
proof -
  let ?ts = "fold tank_shells_step [0..<Suc (length (enemies lv))] (player lv # enemies lv)"
  have m: "map timers ?ts = map timers (player lv # enemies lv)"
    by (rule fold_tank_shells_step_timers)
  have "list_all reload_ok (player lv # enemies lv)"
    using assms by (simp add: level_reload_ok_def)
  then have all: "list_all reload_ok ?ts"
    unfolding list_all_reload_ok_timers m .
  have "length ?ts = Suc (length (enemies lv))"
    using arg_cong [OF m, of length] by simp
  then obtain p es where pe: "?ts = p # es"
    by (cases ?ts) simp_all
  then have "reload_ok p \<and> list_all reload_ok es"
    using all by simp
  then show ?thesis
    unfolding handle_shell_collisions_def Let_def pe by (simp add: level_reload_ok_def)
qed

lemma Level_update_reload_ok:
  assumes "level_reload_ok lv"
  shows "level_reload_ok (snd (Level_update keys dt lv))"
proof -
  let ?lv1 = "lv\<lparr>player := Tank_update keys dt lv (player lv)\<rparr>"
  let ?lv2 = "?lv1\<lparr>enemies := map (Tank_update keys dt ?lv1) (enemies ?lv1)\<rparr>"
  let ?lv3 = "handle_shell_collisions ?lv2"
  have "level_reload_ok ?lv2"
    using assms by (simp add: level_reload_ok_def Tank_update_reload_ok list_all_iff)
  then have "level_reload_ok ?lv3"
    by (rule handle_shell_collisions_reload_ok)
  then have "level_reload_ok (?lv3\<lparr>enemies := filter alive (enemies ?lv3)\<rparr>
      \<lparr>player_destroyed := \<not> alive (player (?lv3\<lparr>enemies := filter alive (enemies ?lv3)\<rparr>))\<rparr>)"
    by (simp add: level_reload_ok_def list_all_iff)
  then show ?thesis
    by (simp add: Level_update_def Let_def)
qed

lemma spawn_slots_reload_ok:
  "level_reload_ok lv \<Longrightarrow> level_reload_ok (fst (spawn_slots R k (lv, g)))"
proof (induction k arbitrary: lv g)
  case 0
  then show ?case by simp
next
  case (Suc k)
  show ?case
  proof (cases "place_attempts R (walls lv) 100 g")
    case (Pair r g')
    show ?thesis
    proof (cases r)
      case None
      then show ?thesis using Pair Suc by simp
    next
      case (Some p)
      let ?lv = "lv\<lparr>enemies := enemies lv @
                 [Tank (fresh_ident lv) p 90 COLOR_enemy ENEMY_SPEED ENEMY_ROTATION_SPEED False]\<rparr>"
      have "level_reload_ok ?lv"
        using Suc.prems by (simp add: level_reload_ok_def Tank_reload_ok)
      then have "level_reload_ok (fst (spawn_slots R k (?lv, g')))"
        by (rule Suc.IH)
      then show ?thesis using Pair Some by simp
    qed
  qed
qed

lemma Level_reload_ok: "level_reload_ok (Level R n)"
proof -
  have "level_reload_ok (generate_map R (empty_level n))"
    by (simp add: level_reload_ok_def generate_map_frame empty_level_def Tank_reload_ok)
  then show ?thesis
    unfolding Level_def spawn_enemies_def empty_level_def [symmetric]
    by (rule spawn_slots_reload_ok)
qed

lemma Tank_update_cooldown: "shell_cooldown (Tank_update keys dt lv t) = shell_cooldown t"
  by (simp add: Tank_update_def Let_def handle_wall_collisions_reload update_player_reload
      update_enemy_cooldown)

lemma run_ops_cooldown: "shell_cooldown (run_ops ops t) = shell_cooldown t"
  unfolding run_ops_def
proof (induction ops arbitrary: t)
  case Nil
  then show ?case by simp
next
  case (Cons op ops)
  have "shell_cooldown (apply_op op t) = shell_cooldown t"
    by (cases op) (simp_all add: Tank_update_cooldown fire_reload)
  then show ?case using Cons.IH [of "apply_op op t"] by simp
qed

text \<open>
  Claim C8. A tank built by the \<^verbatim>\<open>Tank\<close> constructor has its reload timer in
  \<open>[0, shell_cooldown]\<close>, and every sequence of \<^verbatim>\<open>update\<close> and \<^verbatim>\<open>fire\<close> operations, with
  any time steps, keyboard states and levels, keeps it there and leaves the cooldown
  unchanged. One update of a living tank with a non-negative cooldown brings any timer
  into the range. All tanks of a freshly built level are in range, and \<^verbatim>\<open>Level.update\<close>
  keeps them so.
\<close>

theorem reload_timer_in_range:
  "reload_ok (Tank i p a c sp rs ip) \<and>
   (reload_ok t \<longrightarrow>
      0 \<le> reload_time (run_ops ops t) \<and> reload_time (run_ops ops t) \<le> shell_cooldown t \<and>
      shell_cooldown (run_ops ops t) = shell_cooldown t) \<and>
   (alive t \<and> 0 \<le> shell_cooldown t \<longrightarrow> reload_ok (Tank_update keys dt lv t)) \<and>
   level_reload_ok (Level R n) \<and>
   (level_reload_ok lv \<longrightarrow> level_reload_ok (snd (Level_update keys dt lv)))"
proof (intro conjI impI)
  show "reload_ok (Tank i p a c sp rs ip)"
    by (rule Tank_reload_ok)
next
  assume "reload_ok t"
  then have "reload_ok (run_ops ops t)"
    by (rule run_ops_reload_ok)
  then show "0 \<le> reload_time (run_ops ops t)" "reload_time (run_ops ops t) \<le> shell_cooldown t"
    by (simp_all add: reload_ok_def run_ops_cooldown)
next
  show "shell_cooldown (run_ops ops t) = shell_cooldown t"
    by (rule run_ops_cooldown)
next
  assume "alive t \<and> 0 \<le> shell_cooldown t"
  then show "reload_ok (Tank_update keys dt lv t)"
    using Tank_update_clamps by blast
next
  show "level_reload_ok (Level R n)"
    by (rule Level_reload_ok)
next
  assume "level_reload_ok lv"
  then show "level_reload_ok (snd (Level_update keys dt lv))"
    by (rule Level_update_reload_ok)
qed

theorem reload_timer_in_range_witness:
  "reload_ok ((Tank 1 (100, 100) 90 COLOR_enemy ENEMY_SPEED ENEMY_ROTATION_SPEED False)\<lparr>reload_time := 3 / 10\<rparr>) \<and>
   0 \<le> reload_time (run_ops [Op_fire, Op_update no_keys (1 / 60) (empty_level 1), Op_fire]
          ((Tank 1 (100, 100) 90 COLOR_enemy ENEMY_SPEED ENEMY_ROTATION_SPEED False)\<lparr>reload_time := 3 / 10\<rparr>)) \<and>
   reload_time (run_ops [Op_fire, Op_update no_keys (1 / 60) (empty_level 1), Op_fire]
          ((Tank 1 (100, 100) 90 COLOR_enemy ENEMY_SPEED ENEMY_ROTATION_SPEED False)\<lparr>reload_time := 3 / 10\<rparr>)) \<le> 6 / 10 \<and>
   alive ((Tank 1 (100, 100) 90 COLOR_enemy ENEMY_SPEED ENEMY_ROTATION_SPEED False)\<lparr>reload_time := 5\<rparr>) \<and>
   0 \<le> shell_cooldown ((Tank 1 (100, 100) 90 COLOR_enemy ENEMY_SPEED ENEMY_ROTATION_SPEED False)\<lparr>reload_time := 5\<rparr>) \<and>
   reload_ok (Tank_update no_keys (1 / 60) (empty_level 1)
      ((Tank 1 (100, 100) 90 COLOR_enemy ENEMY_SPEED ENEMY_ROTATION_SPEED False)\<lparr>reload_time := 5\<rparr>)) \<and>
   level_reload_ok (Level (const_rng (1 / 2)) 1) \<and>
   level_reload_ok (snd (Level_update no_keys (1 / 60) (Level (const_rng (1 / 2)) 1)))"
proof -
  let ?t = "(Tank 1 (100, 100) 90 COLOR_enemy ENEMY_SPEED ENEMY_ROTATION_SPEED False)\<lparr>reload_time := 3 / 10\<rparr>"
  let ?u = "(Tank 1 (100, 100) 90 COLOR_enemy ENEMY_SPEED ENEMY_ROTATION_SPEED False)\<lparr>reload_time := 5\<rparr>"
  let ?ops = "[Op_fire, Op_update no_keys (1 / 60) (empty_level 1), Op_fire]"
  let ?L = "Level (const_rng (1 / 2)) 1"
  note th = reload_timer_in_range [where t = ?t and ops = ?ops and R = "const_rng (1 / 2)" and n = 1
      and lv = ?L and keys = no_keys and dt = "1 / 60"]
  note tu = reload_timer_in_range [where t = ?u and ops = ?ops and R = "const_rng (1 / 2)" and n = 1
      and lv = "empty_level 1" and keys = no_keys and dt = "1 / 60"]
  have ok: "reload_ok ?t"
    by (simp add: reload_ok_def Tank_def SHELL_COOLDOWN_def)
  have cd: "shell_cooldown ?t = 6 / 10"
    by (simp add: Tank_def SHELL_COOLDOWN_def)
  have r: "0 \<le> reload_time (run_ops ?ops ?t) \<and> reload_time (run_ops ?ops ?t) \<le> shell_cooldown ?t \<and>
      shell_cooldown (run_ops ?ops ?t) = shell_cooldown ?t"
    using th [THEN conjunct2, THEN conjunct1] ok by (rule mp)
  have r1: "0 \<le> reload_time (run_ops ?ops ?t)"
    using r by (rule conjunct1)
  have r2: "reload_time (run_ops ?ops ?t) \<le> 6 / 10"
    using r [THEN conjunct2, THEN conjunct1] unfolding cd .
  have al: "alive ?u \<and> 0 \<le> shell_cooldown ?u"
    by (simp add: Tank_def SHELL_COOLDOWN_def)
  have u: "reload_ok (Tank_update no_keys (1 / 60) (empty_level 1) ?u)"
    using tu [THEN conjunct2, THEN conjunct2, THEN conjunct1] al by (rule mp)
  have l: "level_reload_ok ?L"
    using th [THEN conjunct2, THEN conjunct2, THEN conjunct2] by (rule conjunct1)
  have l': "level_reload_ok (snd (Level_update no_keys (1 / 60) ?L))"
    using th [THEN conjunct2, THEN conjunct2, THEN conjunct2, THEN conjunct2] l by (rule mp)
  show ?thesis
    using ok r1 r2 al [THEN conjunct1] al [THEN conjunct2] u l l' by (intro conjI)
qed

section \<open>Pursuit steering\<close>













section \<open>Wall collisions\<close>


lemma py_int_nonpos: "x \<le> 0 \<Longrightarrow> py_int x = \<lceil>x\<rceil>"
  by (cases "x = 0") (simp_all add: py_int_def)

lemma py_int_unshift:
  assumes "0 \<le> n"
  shows "py_int (a - of_int n) =
     (if 0 < a \<and> a - of_int n \<le> 0 \<and> a \<notin> \<int> then py_int a - n + 1 else py_int a - n)"
proof -
  have i: "a \<in> \<int> \<longleftrightarrow> a = of_int \<lfloor>a\<rfloor>"
    by (metis Ints_of_int of_int_floor)
  have c: "\<lceil>a\<rceil> = (if a \<in> \<int> then \<lfloor>a\<rfloor> else \<lfloor>a\<rfloor> + 1)"
    unfolding i by (simp add: ceiling_altdef)
  consider "a \<le> 0" | "0 < a" "0 < a - of_int n" | "0 < a" "a - of_int n \<le> 0"
    by linarith
  then show ?thesis
  proof cases
    case 1
    then have "a - of_int n \<le> 0" using assms by simp
    then have "py_int (a - of_int n) = \<lceil>a\<rceil> - n"
      by (simp add: py_int_nonpos)
    then show ?thesis using 1 by (simp add: py_int_nonpos)
  next
    case 2
    then show ?thesis by (simp add: py_int_def)
  next
    case 3
    then have "py_int (a - of_int n) = \<lceil>a\<rceil> - n"
      by (simp add: py_int_nonpos)
    moreover have "py_int a = \<lfloor>a\<rfloor>"
      using 3 by (simp add: py_int_def)
    ultimately show ?thesis using 3 c by simp
  qed
qed

lemma Tank_rect_Some:
  "Tank_rect t = Some r \<longleftrightarrow>
     fst (tank_size t) \<noteq> 0 \<and> snd (tank_size t) \<noteq> 0 \<and> alive t \<and>
     r = Rect (py_int (fst (position t) - of_int (fst (tank_size t)) / 2))
              (py_int (snd (position t) - of_int (snd (tank_size t)) / 2))
              (fst (tank_size t)) (snd (tank_size t))"
  by (auto simp: Tank_rect_def split: prod.splits)

lemma push_out_frame:
  "alive (push_out r w t) = alive t" "tank_size (push_out r w t) = tank_size t"
  by (simp_all add: push_out_def Let_def)

lemma push_out_rect:
  assumes "Tank_rect t = Some r"
  shows "\<exists>r'. Tank_rect (push_out r w t) = Some r'"
  using assms by (simp add: Tank_rect_Some push_out_frame)

lemma wall_loop_append:
  assumes "Tank_rect t = Some r"
  shows "wall_loop (ws1 @ ws2) r t = handle_wall_collisions ws2 (wall_loop ws1 r t)"
  using assms
proof (induction ws1 arbitrary: r t)
  case Nil
  then show ?case by (simp add: handle_wall_collisions_def)
next
  case (Cons wall ws1)
  show ?case
  proof (cases "colliderect r wall")
    case True
    obtain r' where r': "Tank_rect (push_out r wall t) = Some r'"
      using push_out_rect [OF Cons.prems] by blast
    then show ?thesis
      using True Cons.IH [OF r'] by simp
  next
    case False
    then show ?thesis using Cons.IH [OF Cons.prems] by simp
  qed
qed

lemma handle_wall_collisions_append:
  "handle_wall_collisions (ws1 @ ws2) t = handle_wall_collisions ws2 (handle_wall_collisions ws1 t)"
proof (cases "Tank_rect t")
  case None
  then show ?thesis by (simp add: handle_wall_collisions_def)
next
  case (Some r)
  then show ?thesis
    using wall_loop_append [OF Some] by (simp add: handle_wall_collisions_def)
qed

lemma handle_wall_collisions_single:
  "handle_wall_collisions [w] t =
     (case Tank_rect t of None \<Rightarrow> t
      | Some r \<Rightarrow> if colliderect r w then push_out r w t else t)"
  by (simp add: handle_wall_collisions_def Let_def split: option.splits)

lemma handle_wall_collisions_rect:
  "Tank_rect (handle_wall_collisions ws t) = None \<longleftrightarrow> Tank_rect t = None"
proof (induction ws arbitrary: t rule: rev_induct)
  case Nil
  then show ?case by (simp add: handle_wall_collisions_def split: option.splits)
next
  case (snoc w ws)
  have "Tank_rect (handle_wall_collisions [w] u) = None \<longleftrightarrow> Tank_rect u = None" for u
  proof (cases "Tank_rect u")
    case None
    then show ?thesis by (simp add: handle_wall_collisions_single)
  next
    case (Some r)
    then show ?thesis
      using push_out_rect [OF Some, of w] by (auto simp: handle_wall_collisions_single)
  qed
  then show ?case
    using snoc.IH by (simp add: handle_wall_collisions_append)
qed


lemma last_push_suffix:
  assumes "Tank_rect (handle_wall_collisions ws t) = Some r'"
  shows "\<exists>us vs. ws = us @ vs \<and> (\<forall>w\<in>set vs. \<not> colliderect r' w) \<and>
        (us = [] \<or> (\<exists>r. Tank_rect (handle_wall_collisions (butlast us) t) = Some r \<and>
                        colliderect r (last us)))"
  using assms
proof (induction ws arbitrary: r' rule: rev_induct)
  case Nil
  then show ?case by simp
next
  case (snoc w ws)
  let ?u = "handle_wall_collisions ws t"
  have e: "handle_wall_collisions (ws @ [w]) t = handle_wall_collisions [w] ?u"
    by (rule handle_wall_collisions_append)
  have "Tank_rect ?u \<noteq> None"
    using snoc.prems handle_wall_collisions_rect [of "ws @ [w]" t] handle_wall_collisions_rect [of ws t]
    by simp
  then obtain r where r: "Tank_rect ?u = Some r"
    by blast
  show ?case
  proof (cases "colliderect r w")
    case True
    have "ws @ [w] = (ws @ [w]) @ [] \<and> (\<forall>w'\<in>set []. \<not> colliderect r' w') \<and>
        (ws @ [w] = [] \<or> (\<exists>r. Tank_rect (handle_wall_collisions (butlast (ws @ [w])) t) = Some r \<and>
                        colliderect r (last (ws @ [w]))))"
      using r True by simp
    then show ?thesis by blast
  next
    case False
    then have "handle_wall_collisions [w] ?u = ?u"
      using r by (simp add: handle_wall_collisions_single)
    then have r': "r' = r"
      using snoc.prems r e by simp
    obtain us vs where uv: "ws = us @ vs" "\<forall>w'\<in>set vs. \<not> colliderect r w'"
        "us = [] \<or> (\<exists>r. Tank_rect (handle_wall_collisions (butlast us) t) = Some r \<and> colliderect r (last us))"
      using snoc.IH [OF r] by blast
    have "ws @ [w] = us @ (vs @ [w]) \<and> (\<forall>w'\<in>set (vs @ [w]). \<not> colliderect r' w') \<and>
        (us = [] \<or> (\<exists>r. Tank_rect (handle_wall_collisions (butlast us) t) = Some r \<and> colliderect r (last us)))"
      using uv False r' by auto
    then show ?thesis by blast
  qed
qed

text \<open>
  Claim C4, as stated, fails: the walls are tested once each, in list order, and a wall
  already passed is not tested again. A tank at \<open>(114, 72)\<close> with the walls of tiles
  \<open>(1, 1)\<close> and \<open>(2, 1)\<close> does not touch the first, is pushed 36 pixels to the left out
  of the second, and ends overlapping the first.
\<close>

theorem wall_pass_counterexample:
  "Tank_rect (enemy_at (114, 72) 0) = Some (Rect 96 54 36 36) \<and>
   Tank_rect (handle_wall_collisions [tile_rect 1 1, tile_rect 2 1] (enemy_at (114, 72) 0)) =
     Some (Rect 60 54 36 36) \<and>
   colliderect (Rect 60 54 36 36) (tile_rect 1 1)"
  by (simp add: enemy_at_def Tank_def Tank_rect_def handle_wall_collisions_def push_out_def
      colliderect_def tile_rect_def TILE_SIZE_def rect_left_def rect_right_def rect_top_def
      rect_bottom_def py_int_def Let_def)

text \<open>
  Claim C4, amended. \<^verbatim>\<open>_handle_wall_collisions\<close> makes one pass over the walls in list
  order: handling a list is handling its first part and then the rest, and handling
  one wall pushes the tank once if the current rectangle overlaps it and does nothing
  otherwise. The rectangle is valid on return exactly when it was valid on entry. On
  return it overlaps none of the walls that follow the last wall the tank was pushed
  out of (none at all when there was no push); the walls before that one are not
  tested again.
\<close>

theorem single_pass_resolution:
  "handle_wall_collisions (ws1 @ ws2) t = handle_wall_collisions ws2 (handle_wall_collisions ws1 t) \<and>
   handle_wall_collisions [w] t =
     (case Tank_rect t of None \<Rightarrow> t
      | Some r \<Rightarrow> if colliderect r w then push_out r w t else t) \<and>
   (Tank_rect (handle_wall_collisions ws t) = None \<longleftrightarrow> Tank_rect t = None) \<and>
   (\<forall>r'. Tank_rect (handle_wall_collisions ws t) = Some r' \<longrightarrow>
      (\<exists>us vs. ws = us @ vs \<and> (\<forall>w\<in>set vs. \<not> colliderect r' w) \<and>
         (us = [] \<or> (\<exists>r. Tank_rect (handle_wall_collisions (butlast us) t) = Some r \<and>
                         colliderect r (last us)))))"
proof (intro conjI allI impI)
  show "handle_wall_collisions (ws1 @ ws2) t = handle_wall_collisions ws2 (handle_wall_collisions ws1 t)"
    by (rule handle_wall_collisions_append)
next
  show "handle_wall_collisions [w] t =
     (case Tank_rect t of None \<Rightarrow> t
      | Some r \<Rightarrow> if colliderect r w then push_out r w t else t)"
    by (rule handle_wall_collisions_single)
next
  show "Tank_rect (handle_wall_collisions ws t) = None \<longleftrightarrow> Tank_rect t = None"
    by (rule handle_wall_collisions_rect)
next
  fix r' assume "Tank_rect (handle_wall_collisions ws t) = Some r'"
  then show "\<exists>us vs. ws = us @ vs \<and> (\<forall>w\<in>set vs. \<not> colliderect r' w) \<and>
         (us = [] \<or> (\<exists>r. Tank_rect (handle_wall_collisions (butlast us) t) = Some r \<and>
                         colliderect r (last us)))"
    by (rule last_push_suffix)
qed

theorem single_pass_resolution_witness:
  "Tank_rect (handle_wall_collisions [tile_rect 2 2, tile_rect 10 10] (enemy_at (100, 100) 0)) =
     Some (Rect 60 82 36 36) \<and>
   \<not> colliderect (Rect 60 82 36 36) (tile_rect 10 10)"
proof -
  let ?t = "enemy_at (100, 100) 0"
  let ?ws = "[tile_rect 2 2, tile_rect 10 10]"
  have e: "Tank_rect (handle_wall_collisions ?ws ?t) = Some (Rect 60 82 36 36)"
    by (simp add: enemy_at_def Tank_def Tank_rect_def handle_wall_collisions_def push_out_def
      colliderect_def tile_rect_def TILE_SIZE_def rect_left_def rect_right_def rect_top_def
      rect_bottom_def py_int_def Let_def)
  have e1: "Tank_rect (handle_wall_collisions [tile_rect 2 2] ?t) = Some (Rect 60 82 36 36)"
    by (simp add: enemy_at_def Tank_def Tank_rect_def handle_wall_collisions_def push_out_def
      colliderect_def tile_rect_def TILE_SIZE_def rect_left_def rect_right_def rect_top_def
      rect_bottom_def py_int_def Let_def)
  have n: "\<not> colliderect (Rect 60 82 36 36) (tile_rect 10 10)"
    by (simp add: colliderect_def tile_rect_def TILE_SIZE_def rect_left_def rect_right_def rect_top_def
      rect_bottom_def)
  note th = single_pass_resolution [of "[]" "[]" ?t "tile_rect 2 2" ?ws,
      THEN conjunct2, THEN conjunct2, THEN conjunct2, THEN spec, THEN mp, OF e]
  obtain us vs where uv: "?ws = us @ vs"
    and free: "\<forall>w\<in>set vs. \<not> colliderect (Rect 60 82 36 36) w"
    and lastp: "us = [] \<or> (\<exists>r. Tank_rect (handle_wall_collisions (butlast us) ?t) = Some r \<and>
                      colliderect r (last us))"
    using th by (elim exE conjE)
  have "vs \<noteq> []"
  proof
    assume v: "vs = []"
    then have u: "us = ?ws" using uv by simp
    then have "\<exists>r. Tank_rect (handle_wall_collisions [tile_rect 2 2] ?t) = Some r \<and>
        colliderect r (tile_rect 10 10)"
      using lastp by simp
    then show False
      unfolding e1 using n by simp
  qed
  then have "last vs = tile_rect 10 10"
    using uv by (metis last_appendR last.simps list.distinct(1))
  then have "tile_rect 10 10 \<in> set vs"
    using \<open>vs \<noteq> []\<close> last_in_set by metis
  then have "\<not> colliderect (Rect 60 82 36 36) (tile_rect 10 10)"
    using free by (rule bspec [rotated])
  then show ?thesis
    using e by simp
qed







section \<open>Dead vehicles and their shells\<close>
















































end
